theory Spec2Isabelle
  imports Main "HOL-Library.Sublist"
begin

section \<open>Data model\<close>

text \<open>
  The script (the latest revision of \<^verbatim>\<open>main.ts\<close>) fetches two Zotero collections,
  validates every raw record with a zod schema, formats a citation per item, resolves
  PubMed identifiers and writes one JSON and two CSV files.

  JavaScript values are modelled as follows. A string is a \<^typ>\<open>string\<close>; an optional
  string (\<^verbatim>\<open>string | undefined\<close>) is a \<^typ>\<open>string option\<close> with \<open>None\<close> for
  \<^verbatim>\<open>undefined\<close>. A number is restricted to the integers and \<^verbatim>\<open>NaN\<close>
  (fractions and infinities do not occur in Zotero's versions and date parts).
  Exceptions are values of the type \<open>error\<close>: the assertion error with its message,
  the type error of the language, the validation error of zod, and whatever
  \<^verbatim>\<open>fetch\<close> or \<^verbatim>\<open>response.json()\<close> throws. The remote services are parameters of
  the functions that call them. Writing a file and creating the output directory are
  taken to succeed.
\<close>

datatype error =
    AssertionError string
  | TypeError
  | ZodError
  | FetchError

datatype jsnum = NaN | Num int

datatype creatorType = author | editor

text \<open>
  The two members of the \<^verbatim>\<open>creators\<close> union of the schema: an organisation
  \<^verbatim>\<open>{creatorType, name}\<close> and a person \<^verbatim>\<open>{creatorType, firstName, lastName}\<close>.
\<close>

datatype Author =
    Named creatorType string
  | Person creatorType string string

fun creatorTypeOf :: "Author \<Rightarrow> creatorType" where
  "creatorTypeOf (Named t _) = t"
| "creatorTypeOf (Person t _ _) = t"

record date =
  year :: "jsnum option"
  month :: "jsnum option"
  day :: "jsnum option"

record ZoteroItem =
  key :: string
  version :: int
  itemType :: string
  title :: string
  creators :: "Author list"
  abstractNote :: string
  institution :: "string option"
  bookTitle :: "string option"
  proceedingsTitle :: "string option"
  publicationTitle :: "string option"
  volume :: "string option"
  issue :: "string option"
  pages :: "string option"
  series :: "string option"
  seriesTitle :: "string option"
  seriesText :: "string option"
  journalAbbreviation :: "string option"
  DOI :: "string option"
  ISSN :: "string option"
  shortTitle :: "string option"
  url :: "string option"
  date :: date

section \<open>JavaScript string helpers\<close>

text \<open>\<^verbatim>\<open>Array.prototype.join\<close> with an explicit separator.\<close>

fun join :: "string \<Rightarrow> string list \<Rightarrow> string" where
  "join sep [] = []"
| "join sep [x] = x"
| "join sep (x # y # ys) = x @ sep @ join sep (y # ys)"

text \<open>\<^verbatim>\<open>String.prototype.includes\<close>: the needle occurs as a contiguous substring.\<close>

fun startsWith :: "string \<Rightarrow> string \<Rightarrow> bool" where
  "startsWith s [] = True"
| "startsWith [] (c # cs) = False"
| "startsWith (d # ds) (c # cs) = (d = c \<and> startsWith ds cs)"

fun includes_str :: "string \<Rightarrow> string \<Rightarrow> bool" where
  "includes_str [] needle = (needle = [])"
| "includes_str (c # cs) needle = (startsWith (c # cs) needle \<or> includes_str cs needle)"

text \<open>
  Truthiness of an optional string, as tested by \<^verbatim>\<open>if (meta.volume)\<close>:
  \<^verbatim>\<open>undefined\<close> and the empty string are falsy.
\<close>

definition truthy :: "string option \<Rightarrow> bool" where
  "truthy v = (case v of None \<Rightarrow> False | Some s \<Rightarrow> s \<noteq> [])"

text \<open>\<^verbatim>\<open>meta.url?.includes(needle)\<close> used as a condition: \<^verbatim>\<open>undefined\<close> is falsy.\<close>

definition optIncludes :: "string option \<Rightarrow> string \<Rightarrow> bool" where
  "optIncludes v needle = (case v of None \<Rightarrow> False | Some s \<Rightarrow> includes_str s needle)"

text \<open>
  Decimal rendering of a number inside a template literal. (JavaScript switches to
  exponent notation from \<open>10\<^sup>2\<^sup>1\<close> on; such years are outside this model.)
\<close>

definition digitChar :: "nat \<Rightarrow> char" where
  "digitChar d = ''0123456789'' ! d"

fun showNat :: "nat \<Rightarrow> string" where
  "showNat n = (if n < 10 then [digitChar n] else showNat (n div 10) @ [digitChar (n mod 10)])"

definition showInt :: "int \<Rightarrow> string" where
  "showInt i = (if i < 0 then CHR ''-'' # showNat (nat (- i)) else showNat (nat i))"

definition showNum :: "jsnum option \<Rightarrow> string" where
  "showNum v = (case v of None \<Rightarrow> ''undefined'' | Some NaN \<Rightarrow> ''NaN'' | Some (Num i) \<Rightarrow> showInt i)"

section \<open>Citation formatter\<close>

text \<open>The emphasis helpers \<^verbatim>\<open>it\<close> and \<^verbatim>\<open>b\<close> of the rich rendering mode.\<close>

definition it :: "bool \<Rightarrow> string \<Rightarrow> string" where
  "it rich text = (if rich then ''*'' @ text @ ''*'' else text)"

definition b :: "bool \<Rightarrow> string \<Rightarrow> string" where
  "b rich text = (if rich then ''**'' @ text @ ''**'' else text)"

text \<open>
  \<^verbatim>\<open>firstName.match(/[A-Z]/g)\<close>: every ASCII capital, in order, as one-character
  strings; \<^verbatim>\<open>null\<close> when there is none.
\<close>

definition isCapital :: "char \<Rightarrow> bool" where
  "isCapital c = (65 \<le> (of_char c :: nat) \<and> (of_char c :: nat) \<le> 90)"

definition matchCapitals :: "string \<Rightarrow> string list option" where
  "matchCapitals s =
     (let ms = map (\<lambda>c. [c]) (filter isCapital s) in if ms = [] then None else Some ms)"

text \<open>One creator of the rendered list (the body of the \<^verbatim>\<open>map\<close> callback).\<close>

fun formatAuthor :: "bool \<Rightarrow> Author \<Rightarrow> string" where
  "formatAuthor rich (Named t name) = it rich name"
| "formatAuthor rich (Person t firstName lastName) =
     (case matchCapitals firstName of None \<Rightarrow> [] | Some initials \<Rightarrow> join [] initials)
       @ '' '' @ lastName"

definition formatAuthors :: "Author list \<Rightarrow> bool \<Rightarrow> string" where
  "formatAuthors authors rich =
     (let formatted = map (formatAuthor rich) (filter (\<lambda>a. creatorTypeOf a = author) authors)
      in if length formatted = 2 then join '' and '' formatted else join '', '' formatted)"

text \<open>
  \<^verbatim>\<open>formatJournalInfo\<close>. The result is the returned string or the thrown error, paired
  with the diagnostics written by \<^verbatim>\<open>console.error\<close> (the type \<open>diagnostic\<close> has
  one constructor per message of the script). Every \<^verbatim>\<open>assert\<close> of the
  source is a branch that throws (an \<^verbatim>\<open>AssertionError\<close> with the empty default message). A field is read with \<^term>\<open>the\<close> only under the
  truthiness test that guards it in the source.
\<close>

datatype diagnostic = UnhandledItemType ZoteroItem | CouldNotFetch string error

definition journalCitation :: "ZoteroItem \<Rightarrow> bool \<Rightarrow> string" where
  "journalCitation meta rich =
     (let citation = it rich (the (publicationTitle meta));
          citation = (if truthy (volume meta)
                      then citation @ '' '' @ b rich (the (volume meta)) else citation);
          citation = (if truthy (issue meta)
                      then citation @ ''('' @ the (issue meta) @ '')'' else citation)
      in if truthy (pages meta)
         then citation @ (if truthy (issue meta) \<or> truthy (volume meta) then '':'' else '' '')
                @ the (pages meta)
         else citation)"

definition formatJournalInfo :: "ZoteroItem \<Rightarrow> bool \<Rightarrow> (error + string) \<times> diagnostic list" where
  "formatJournalInfo meta rich =
     (if itemType meta = ''thesis'' then (Inr (it rich ''Thesis''), [])
      else if itemType meta = ''preprint'' then
        (if optIncludes (url meta) ''arxiv'' then (Inr (it rich ''arXiv''), [])
         else if optIncludes (url meta) ''biorxiv'' then (Inr (it rich ''bioRxiv''), [])
         else if optIncludes (url meta) ''medrxiv'' then (Inr (it rich ''medRxiv''), [])
         else if optIncludes (url meta) ''osf.io'' then (Inr (it rich ''OSF Preprints''), [])
         else if optIncludes (url meta) ''ssrn'' then (Inr (it rich ''SSRN Preprints''), [])
         else (Inr (it rich ''Preprint''), []))
      else if truthy (publicationTitle meta) then
        (if itemType meta = ''journalArticle'' then (Inr (journalCitation meta rich), [])
         else (Inl (AssertionError []), []))
      else if truthy (proceedingsTitle meta) then
        (if itemType meta = ''conferencePaper''
         then (Inr (it rich (the (proceedingsTitle meta))), [])
         else (Inl (AssertionError []), []))
      else if truthy (bookTitle meta) then
        (if itemType meta = ''bookSection''
         then (Inr (it rich (the (bookTitle meta)) @ '' (Book)''), [])
         else (Inl (AssertionError []), []))
      else if truthy (institution meta) then
        (if itemType meta = ''report''
         then (Inr (it rich (the (institution meta))
                 @ (if truthy (pages meta) then '' '' @ the (pages meta) else [])), [])
         else (Inl (AssertionError []), []))
      else (Inr [], [UnhandledItemType meta]))"

text \<open>
  \<^verbatim>\<open>formatZoteroItem\<close> and \<^verbatim>\<open>formatCitation\<close>. The authors are rendered first, so
  an assertion of \<^verbatim>\<open>formatJournalInfo\<close> is the only way either of them throws.
  \<^verbatim>\<open>formatCitation\<close> passes no options: the plain rendering.
\<close>

record FormattedItem =
  fTitle :: string
  fAuthors :: string
  fPublished :: string
  fYear :: "jsnum option"

definition formatZoteroItem :: "ZoteroItem \<Rightarrow> bool \<Rightarrow> (error + FormattedItem) \<times> diagnostic list" where
  "formatZoteroItem item rich =
     (let authors = formatAuthors (creators item) rich in
      case formatJournalInfo item rich of
        (Inl e, log) \<Rightarrow> (Inl e, log)
      | (Inr published, log) \<Rightarrow>
          (Inr \<lparr>fTitle = title item, fAuthors = authors, fPublished = published,
                 fYear = year (date item)\<rparr>, log))"

definition dquote :: string where
  "dquote = [CHR 0x22]"

definition formatCitation :: "ZoteroItem \<Rightarrow> (error + string) \<times> diagnostic list" where
  "formatCitation item =
     (case formatZoteroItem item False of
        (Inl e, log) \<Rightarrow> (Inl e, log)
      | (Inr f, log) \<Rightarrow>
          (Inr (fAuthors f @ '', '' @ dquote @ fTitle f @ dquote @ '', '' @ fPublished f
                  @ '' ('' @ showNum (fYear f) @ '').''), log))"

text \<open>Example items used to evaluate the formatter.\<close>

definition blankItem :: ZoteroItem where
  "blankItem =
     \<lparr>key = ''K0'', version = 1, itemType = ''journalArticle'', title = ''A title'',
      creators = [], abstractNote = [], institution = None, bookTitle = None,
      proceedingsTitle = None, publicationTitle = None, volume = None, issue = None,
      pages = None, series = None, seriesTitle = None, seriesText = None,
      journalAbbreviation = None, DOI = None, ISSN = None, shortTitle = None, url = None,
      date = \<lparr>year = Some (Num 2024), month = None, day = None\<rparr>\<rparr>"

definition natureItem :: ZoteroItem where
  "natureItem =
     blankItem\<lparr>publicationTitle := Some ''Nature'', volume := Some ''600'',
               issue := Some ''2'', pages := Some ''100-110''\<rparr>"

definition strayProceedingsItem :: ZoteroItem where
  "strayProceedingsItem = blankItem\<lparr>proceedingsTitle := Some ''Proc. of VIS''\<rparr>"

definition strayPublicationItem :: ZoteroItem where
  "strayPublicationItem =
     blankItem\<lparr>itemType := ''conferencePaper'', publicationTitle := Some ''IEEE TVCG''\<rparr>"

definition bothServersItem :: ZoteroItem where
  "bothServersItem =
     blankItem\<lparr>itemType := ''preprint'',
               url := Some ''https://www.biorxiv.org/content/arxiv-2101.00001''\<rparr>"

subsection \<open>The venue rules in the words of the specification\<close>

text \<open>
  An optional part of a venue string: nothing when the field is absent, otherwise the
  field between a prefix and a suffix.
\<close>

definition optPart :: "string \<Rightarrow> string option \<Rightarrow> string \<Rightarrow> string" where
  "optPart pre v post = (case v of None \<Rightarrow> [] | Some s \<Rightarrow> if s = [] then [] else pre @ s @ post)"

text \<open>
  The journal rule: the publication title, then a space and the volume, then the issue
  in parentheses, then the pages after a colon when an issue or a volume is present and
  after a space otherwise.
\<close>

definition journalVenueSpec :: "string \<Rightarrow> string option \<Rightarrow> string option \<Rightarrow> string option \<Rightarrow> string" where
  "journalVenueSpec p vol iss pgs =
     p @ optPart '' '' vol [] @ optPart ''('' iss '')''
       @ optPart (if truthy iss \<or> truthy vol then '':'' else '' '') pgs []"

text \<open>
  The preprint rule: the first server of the priority list whose marker is a contiguous
  substring (\<^const>\<open>sublist\<close>) of the url, the literal \<open>Preprint\<close> when there is none
  or no url.
\<close>

definition preprintServers :: "(string \<times> string) list" where
  "preprintServers =
     [(''arxiv'', ''arXiv''), (''biorxiv'', ''bioRxiv''), (''medrxiv'', ''medRxiv''),
      (''osf.io'', ''OSF Preprints''), (''ssrn'', ''SSRN Preprints'')]"

definition preprintVenueSpec :: "string option \<Rightarrow> string" where
  "preprintVenueSpec u =
     (case u of
        None \<Rightarrow> ''Preprint''
      | Some s \<Rightarrow>
          (case find (\<lambda>(marker, name). sublist marker s) preprintServers of
             None \<Rightarrow> ''Preprint''
           | Some (marker, name) \<Rightarrow> name))"

text \<open>
  The venue field that decides the branch of \<^verbatim>\<open>formatJournalInfo\<close> for an item that
  is neither a thesis nor a preprint: the item type that the first present field, in
  the order of the source, is asserted to belong to.
\<close>

definition firstVenueOwner :: "ZoteroItem \<Rightarrow> string option" where
  "firstVenueOwner meta =
     (if truthy (publicationTitle meta) then Some ''journalArticle''
      else if truthy (proceedingsTitle meta) then Some ''conferencePaper''
      else if truthy (bookTitle meta) then Some ''bookSection''
      else if truthy (institution meta) then Some ''report''
      else None)"

section \<open>Schema validator\<close>

text \<open>
  A parsed JSON document. An object is the list of its members; a member is read with
  \<^const>\<open>map_of\<close> (the parser keeps one value per key). Numbers are integers, see above.
\<close>

datatype json =
    JNull
  | JBool bool
  | JNum int
  | JStr string
  | JArr "json list"
  | JObj "(string \<times> json) list"

text \<open>
  The zod combinators that the schema uses. The input of a schema is a
  \<^typ>\<open>json option\<close>: \<open>None\<close> is \<^verbatim>\<open>undefined\<close>, the value of a missing member. A
  failed validation is the thrown \<^verbatim>\<open>ZodError\<close>.
\<close>

definition bindE :: "error + 'a \<Rightarrow> ('a \<Rightarrow> error + 'b) \<Rightarrow> error + 'b" where
  "bindE m f = (case m of Inl e \<Rightarrow> Inl e | Inr x \<Rightarrow> f x)"

fun zString :: "json option \<Rightarrow> error + string" where
  "zString (Some (JStr s)) = Inr s"
| "zString _ = Inl ZodError"

fun zNumber :: "json option \<Rightarrow> error + int" where
  "zNumber (Some (JNum n)) = Inr n"
| "zNumber _ = Inl ZodError"

fun zObject :: "json option \<Rightarrow> error + (string \<Rightarrow> json option)" where
  "zObject (Some (JObj members)) = Inr (map_of members)"
| "zObject _ = Inl ZodError"

fun mapE :: "('a \<Rightarrow> error + 'b) \<Rightarrow> 'a list \<Rightarrow> error + 'b list" where
  "mapE f [] = Inr []"
| "mapE f (x # xs) = bindE (f x) (\<lambda>y. bindE (mapE f xs) (\<lambda>ys. Inr (y # ys)))"

fun zArray :: "(json option \<Rightarrow> error + 'a) \<Rightarrow> json option \<Rightarrow> error + 'a list" where
  "zArray element (Some (JArr xs)) = mapE (\<lambda>x. element (Some x)) xs"
| "zArray element _ = Inl ZodError"

text \<open>
  \<^verbatim>\<open>maybeStringSchema\<close>: an optional string that is transformed to \<^verbatim>\<open>undefined\<close>
  if it is an empty string.
\<close>

fun maybeStringSchema :: "json option \<Rightarrow> error + string option" where
  "maybeStringSchema None = Inr None"
| "maybeStringSchema (Some (JStr v)) = Inr (if v = [] then None else Some v)"
| "maybeStringSchema (Some _) = Inl ZodError"

text \<open>\<^verbatim>\<open>z.enum(["author", "editor"])\<close>.\<close>

definition zCreatorType :: "json option \<Rightarrow> error + creatorType" where
  "zCreatorType v =
     bindE (zString v)
       (\<lambda>s. if s = ''author'' then Inr author
            else if s = ''editor'' then Inr editor else Inl ZodError)"

text \<open>
  The union of the two creator shapes: the first member that validates wins, so a
  creator with a \<open>name\<close> is an organisation even if it also has first and last names.
\<close>

definition creatorSchema :: "json option \<Rightarrow> error + Author" where
  "creatorSchema v =
     bindE (zObject v)
       (\<lambda>c. case bindE (zCreatorType (c ''creatorType''))
                   (\<lambda>t. bindE (zString (c ''name'')) (\<lambda>n. Inr (Named t n))) of
              Inr a \<Rightarrow> Inr a
            | Inl _ \<Rightarrow>
                bindE (zCreatorType (c ''creatorType''))
                  (\<lambda>t. bindE (zString (c ''firstName''))
                  (\<lambda>f. bindE (zString (c ''lastName''))
                  (\<lambda>l. Inr (Person t f l)))))"

text \<open>
  \<^verbatim>\<open>value.replace(/^Abstract\s+/, "")\<close>: the prefix \<open>Abstract\<close> and the white space
  after it are removed when at least one white-space character follows. (The ASCII
  white space; the class \<^verbatim>\<open>\s\<close> has further members outside ASCII.)
\<close>

definition isSpace :: "char \<Rightarrow> bool" where
  "isSpace c = ((of_char c :: nat) \<in> {9, 10, 11, 12, 13, 32})"

definition removeAbstractPrefix :: "string \<Rightarrow> string" where
  "removeAbstractPrefix v =
     (if startsWith v ''Abstract'' \<and> takeWhile isSpace (drop 8 v) \<noteq> []
      then dropWhile isSpace (drop 8 v) else v)"

text \<open>
  The \<open>issued\<close> member of the CSL JSON: \<open>date-parts\<close> is an array of arrays of numbers
  or strings, refined to exactly one range, whose parts are converted with
  \<^verbatim>\<open>Number\<close>. The conversion of a string to a number is a parameter of the model.
  \<open>nth_opt\<close> is the indexing \<^verbatim>\<open>parts[i]\<close>, \<^verbatim>\<open>undefined\<close> beyond the end.
\<close>

definition nth_opt :: "'a list \<Rightarrow> nat \<Rightarrow> 'a option" where
  "nth_opt xs i = (if i < length xs then Some (xs ! i) else None)"

fun zNumberOrString :: "(string \<Rightarrow> jsnum) \<Rightarrow> json option \<Rightarrow> error + jsnum" where
  "zNumberOrString stringToNumber (Some (JNum n)) = Inr (Num n)"
| "zNumberOrString stringToNumber (Some (JStr s)) = Inr (stringToNumber s)"
| "zNumberOrString stringToNumber _ = Inl ZodError"

definition issuedSchema :: "(string \<Rightarrow> jsnum) \<Rightarrow> json option \<Rightarrow> error + date" where
  "issuedSchema stringToNumber v =
     bindE (zObject v)
       (\<lambda>issued. bindE (zArray (zArray (zNumberOrString stringToNumber)) (issued ''date-parts''))
       (\<lambda>ranges. case ranges of
            [parts] \<Rightarrow> Inr \<lparr>year = nth_opt parts 0, month = nth_opt parts 1,
                             day = nth_opt parts 2\<rparr>
          | _ \<Rightarrow> Inl ZodError))"

text \<open>
  \<^verbatim>\<open>zoteroItemSchema\<close>: the \<open>data\<close> member with its fields, the \<open>csljson\<close> member
  with the issue date, merged into one item by the final transform.
\<close>

definition zoteroItemSchema :: "(string \<Rightarrow> jsnum) \<Rightarrow> json option \<Rightarrow> error + ZoteroItem" where
  "zoteroItemSchema stringToNumber v =
     bindE (zObject v) (\<lambda>root.
     bindE (zObject (root ''data'')) (\<lambda>data.
     bindE (zString (data ''key'')) (\<lambda>key'.
     bindE (zNumber (data ''version'')) (\<lambda>version'.
     bindE (zString (data ''itemType'')) (\<lambda>itemType'.
     bindE (zString (data ''title'')) (\<lambda>title'.
     bindE (zArray creatorSchema (data ''creators'')) (\<lambda>creators'.
     bindE (zString (data ''abstractNote'')) (\<lambda>abstractNote'.
     bindE (maybeStringSchema (data ''institution'')) (\<lambda>institution'.
     bindE (maybeStringSchema (data ''bookTitle'')) (\<lambda>bookTitle'.
     bindE (maybeStringSchema (data ''proceedingsTitle'')) (\<lambda>proceedingsTitle'.
     bindE (maybeStringSchema (data ''publicationTitle'')) (\<lambda>publicationTitle'.
     bindE (maybeStringSchema (data ''volume'')) (\<lambda>volume'.
     bindE (maybeStringSchema (data ''issue'')) (\<lambda>issue'.
     bindE (maybeStringSchema (data ''pages'')) (\<lambda>pages'.
     bindE (maybeStringSchema (data ''series'')) (\<lambda>series'.
     bindE (maybeStringSchema (data ''seriesTitle'')) (\<lambda>seriesTitle'.
     bindE (maybeStringSchema (data ''seriesText'')) (\<lambda>seriesText'.
     bindE (maybeStringSchema (data ''journalAbbreviation'')) (\<lambda>journalAbbreviation'.
     bindE (maybeStringSchema (data ''DOI'')) (\<lambda>DOI'.
     bindE (maybeStringSchema (data ''ISSN'')) (\<lambda>ISSN'.
     bindE (maybeStringSchema (data ''shortTitle'')) (\<lambda>shortTitle'.
     bindE (maybeStringSchema (data ''url'')) (\<lambda>url'.
     bindE (zObject (root ''csljson'')) (\<lambda>csljson.
     bindE (issuedSchema stringToNumber (csljson ''issued'')) (\<lambda>issued.
       Inr \<lparr>key = key', version = version', itemType = itemType', title = title',
            creators = creators', abstractNote = removeAbstractPrefix abstractNote',
            institution = institution', bookTitle = bookTitle',
            proceedingsTitle = proceedingsTitle', publicationTitle = publicationTitle',
            volume = volume', issue = issue', pages = pages', series = series',
            seriesTitle = seriesTitle', seriesText = seriesText',
            journalAbbreviation = journalAbbreviation', DOI = DOI', ISSN = ISSN',
            shortTitle = shortTitle', url = url', date = issued\<rparr>
     )))))))))))))))))))))))))"

text \<open>
  The optional textual fields of an item, each with the name of the member of \<open>data\<close>
  it is read from, and the member of \<open>data\<close> of a raw record.
\<close>

definition optionalTextFields :: "(string \<times> (ZoteroItem \<Rightarrow> string option)) list" where
  "optionalTextFields =
     [(''institution'', institution), (''bookTitle'', bookTitle),
      (''proceedingsTitle'', proceedingsTitle), (''publicationTitle'', publicationTitle),
      (''volume'', volume), (''issue'', issue), (''pages'', pages), (''series'', series),
      (''seriesTitle'', seriesTitle), (''seriesText'', seriesText),
      (''journalAbbreviation'', journalAbbreviation), (''DOI'', DOI), (''ISSN'', ISSN),
      (''shortTitle'', shortTitle), (''url'', url)]"

definition rawDataMember :: "json \<Rightarrow> string \<Rightarrow> json option" where
  "rawDataMember raw name =
     (case raw of
        JObj members \<Rightarrow> (case map_of members ''data'' of Some (JObj data) \<Rightarrow> map_of data name | _ \<Rightarrow> None)
      | _ \<Rightarrow> None)"

section \<open>Collection fetcher\<close>

text \<open>
  The callback of \<^verbatim>\<open>json.filter\<close>, \<^verbatim>\<open>item.data.itemType !== "note"\<close>, on a raw
  element. Reading a property of \<^verbatim>\<open>undefined\<close> or \<^verbatim>\<open>null\<close> throws a
  \<^verbatim>\<open>TypeError\<close>: so does an element that is no object with a \<open>data\<close> member, and a
  \<open>data\<close> member that is \<^verbatim>\<open>null\<close>. A \<open>data\<close> member that is no object has no
  \<open>itemType\<close> and is kept.
\<close>

fun isNotNote :: "json \<Rightarrow> error + bool" where
  "isNotNote (JObj members) =
     (case map_of members ''data'' of
        None \<Rightarrow> Inl TypeError
      | Some JNull \<Rightarrow> Inl TypeError
      | Some (JObj data) \<Rightarrow> Inr (map_of data ''itemType'' \<noteq> Some (JStr ''note''))
      | Some _ \<Rightarrow> Inr True)"
| "isNotNote _ = Inl TypeError"

fun filterE :: "('a \<Rightarrow> error + bool) \<Rightarrow> 'a list \<Rightarrow> error + 'a list" where
  "filterE keep [] = Inr []"
| "filterE keep (x # xs) =
     bindE (keep x) (\<lambda>k. bindE (filterE keep xs) (\<lambda>ys. Inr (if k then x # ys else ys)))"

text \<open>
  One page of the loop of \<^verbatim>\<open>fetchZoteroCollection\<close>: the response body must be an
  array; the notes are filtered out, the rest is validated; the result is the raw
  length \<^verbatim>\<open>json.length\<close> and the new items.
\<close>

definition parsePage :: "(string \<Rightarrow> jsnum) \<Rightarrow> json \<Rightarrow> error + nat \<times> ZoteroItem list" where
  "parsePage stringToNumber body =
     (case body of
        JArr raw \<Rightarrow>
          bindE (filterE isNotNote raw) (\<lambda>kept.
          bindE (zArray (zoteroItemSchema stringToNumber) (Some (JArr kept))) (\<lambda>newItems.
            Inr (length raw, newItems)))
      | _ \<Rightarrow> Inl TypeError)"

text \<open>
  The loop \<^verbatim>\<open>while (true)\<close>. The remote API of one collection is a function from the
  query parameters \<open>limit\<close> and \<open>start\<close> to the parsed response body, or to the error
  that \<^verbatim>\<open>fetch\<close> or \<^verbatim>\<open>response.json()\<close> throws. The loop may run forever: the
  result \<open>None\<close> is a run that never returns. Besides the items or the error, the
  result lists the offsets requested, in order.
\<close>

partial_function (option) fetchLoop ::
  "(string \<Rightarrow> jsnum) \<Rightarrow> (nat \<Rightarrow> nat \<Rightarrow> error + json) \<Rightarrow> nat \<Rightarrow> nat \<Rightarrow> ZoteroItem list
     \<Rightarrow> nat list \<Rightarrow> ((error + ZoteroItem list) \<times> nat list) option" where
  "fetchLoop stringToNumber api itemsPerPage start items requested =
     (case api itemsPerPage start of
        Inl e \<Rightarrow> Some (Inl e, requested @ [start])
      | Inr body \<Rightarrow>
          (case parsePage stringToNumber body of
             Inl e \<Rightarrow> Some (Inl e, requested @ [start])
           | Inr page \<Rightarrow>
               if fst page < itemsPerPage
               then Some (Inr (items @ snd page), requested @ [start])
               else fetchLoop stringToNumber api itemsPerPage (start + itemsPerPage)
                      (items @ snd page) (requested @ [start])))"

text \<open>The Zotero API: group, collection, \<open>limit\<close>, \<open>start\<close>.\<close>

type_synonym zoteroApi = "string \<Rightarrow> string \<Rightarrow> nat \<Rightarrow> nat \<Rightarrow> error + json"

definition fetchZoteroCollection ::
  "(string \<Rightarrow> jsnum) \<Rightarrow> zoteroApi \<Rightarrow> string \<Rightarrow> string
     \<Rightarrow> ((error + ZoteroItem list) \<times> nat list) option" where
  "fetchZoteroCollection stringToNumber zotero groupId collectionId =
     fetchLoop stringToNumber (zotero groupId collectionId) 100 0 [] []"

subsection \<open>The pages of a collection in the words of the specification\<close>

text \<open>
  A raw record is a note when the item type of its \<open>data\<close> is \<open>note\<close>. The filter can
  read a raw record when the record is an object whose \<open>data\<close> member is present and
  not \<^verbatim>\<open>null\<close>. The items that survive of a raw page: every record can be read, the
  notes are dropped and each of the other records is accepted by the item schema.
\<close>

definition isNote :: "json \<Rightarrow> bool" where
  "isNote v =
     (case v of
        JObj members \<Rightarrow>
          (case map_of members ''data'' of
             Some (JObj data) \<Rightarrow> map_of data ''itemType'' = Some (JStr ''note'')
           | _ \<Rightarrow> False)
      | _ \<Rightarrow> False)"

definition hasData :: "json \<Rightarrow> bool" where
  "hasData v =
     (case v of
        JObj members \<Rightarrow>
          (case map_of members ''data'' of None \<Rightarrow> False | Some JNull \<Rightarrow> False | Some _ \<Rightarrow> True)
      | _ \<Rightarrow> False)"

definition accepted :: "(string \<Rightarrow> jsnum) \<Rightarrow> json \<Rightarrow> ZoteroItem option" where
  "accepted stn v = (case zoteroItemSchema stn (Some v) of Inl e \<Rightarrow> None | Inr x \<Rightarrow> Some x)"

definition surviving :: "(string \<Rightarrow> jsnum) \<Rightarrow> json list \<Rightarrow> ZoteroItem list option" where
  "surviving stn raw =
     (if list_all hasData raw then those (map (accepted stn) (filter (\<lambda>v. \<not> isNote v) raw))
      else None)"

text \<open>
  Page \<open>j\<close> of a collection is what the API answers to the request with the limit 100
  and the offset \<open>100 * j\<close>: the raw page is the array returned, the raw count is its
  length, before any filter, and the items of the page are those that survive of it.
  A page has no items (\<open>None\<close>) when the request fails, when the answer is no array or
  when its records do not all pass.
\<close>

definition rawPage :: "(nat \<Rightarrow> nat \<Rightarrow> error + json) \<Rightarrow> nat \<Rightarrow> json list option" where
  "rawPage api j = (case api 100 (100 * j) of Inr (JArr raw) \<Rightarrow> Some raw | _ \<Rightarrow> None)"

definition rawCount :: "(nat \<Rightarrow> nat \<Rightarrow> error + json) \<Rightarrow> nat \<Rightarrow> nat" where
  "rawCount api j = (case rawPage api j of Some raw \<Rightarrow> length raw | None \<Rightarrow> 0)"

definition pageItems ::
  "(string \<Rightarrow> jsnum) \<Rightarrow> (nat \<Rightarrow> nat \<Rightarrow> error + json) \<Rightarrow> nat \<Rightarrow> ZoteroItem list option" where
  "pageItems stn api j = (case rawPage api j of Some raw \<Rightarrow> surviving stn raw | None \<Rightarrow> None)"

definition itemsOf ::
  "(string \<Rightarrow> jsnum) \<Rightarrow> (nat \<Rightarrow> nat \<Rightarrow> error + json) \<Rightarrow> nat \<Rightarrow> ZoteroItem list" where
  "itemsOf stn api j = (case pageItems stn api j of Some items \<Rightarrow> items | None \<Rightarrow> [])"

text \<open>A remote collection that is a finite list of raw records, served in pages.\<close>

definition servePages :: "json list \<Rightarrow> nat \<Rightarrow> nat \<Rightarrow> error + json" where
  "servePages collection limit start = Inr (JArr (take limit (drop start collection)))"

section \<open>Cross-reference resolver\<close>

text \<open>\<^verbatim>\<open>ncbiIdConverterResponseSchema\<close>; the result is its \<open>records\<close> member.\<close>

fun zOptionalString :: "json option \<Rightarrow> error + string option" where
  "zOptionalString None = Inr None"
| "zOptionalString (Some (JStr s)) = Inr (Some s)"
| "zOptionalString (Some _) = Inl ZodError"

definition ncbiRecordSchema :: "json option \<Rightarrow> error + string \<times> string option" where
  "ncbiRecordSchema v =
     bindE (zObject v) (\<lambda>r.
     bindE (zString (r ''doi'')) (\<lambda>doi.
     bindE (zOptionalString (r ''pmid'')) (\<lambda>pmid. Inr (doi, pmid))))"

definition ncbiIdConverterResponseSchema :: "json option \<Rightarrow> error + (string \<times> string option) list" where
  "ncbiIdConverterResponseSchema v =
     bindE (zObject v) (\<lambda>response. zArray ncbiRecordSchema (response ''records''))"

text \<open>
  The inner loop: \<^verbatim>\<open>if (record.pmid) records[record.doi] = record.pmid\<close>. The object
  \<^verbatim>\<open>records\<close> is a map from DOI to PubMed identifier. (A DOI is not one of the
  property names that a JavaScript object treats specially, such as \<^verbatim>\<open>__proto__\<close>.)
\<close>

fun storeRecords :: "(string \<times> string option) list \<Rightarrow> (string \<rightharpoonup> string) \<Rightarrow> (string \<rightharpoonup> string)" where
  "storeRecords [] records = records"
| "storeRecords ((doi, pmid) # rest) records =
     storeRecords rest (if truthy pmid then records(doi \<mapsto> the pmid) else records)"

text \<open>
  The outer loop \<^verbatim>\<open>for (let i = 0; i < dois.length; i += batchSize)\<close>. The converter
  service is a function from the offset of a request and its batch of DOIs to the
  parsed response body or the error thrown. The result lists the batches requested.
\<close>

partial_function (option) getPubMedIdsLoop ::
  "(nat \<Rightarrow> string list \<Rightarrow> error + json) \<Rightarrow> string list \<Rightarrow> nat \<Rightarrow> nat \<Rightarrow> (string \<rightharpoonup> string)
     \<Rightarrow> string list list \<Rightarrow> ((error + (string \<rightharpoonup> string)) \<times> string list list) option" where
  "getPubMedIdsLoop ncbi dois batchSize i records requested =
     (if i < length dois then
        (case ncbi i (take batchSize (drop i dois)) of
           Inl e \<Rightarrow> Some (Inl e, requested @ [take batchSize (drop i dois)])
         | Inr data \<Rightarrow>
             (case ncbiIdConverterResponseSchema (Some data) of
                Inl e \<Rightarrow> Some (Inl e, requested @ [take batchSize (drop i dois)])
              | Inr reported \<Rightarrow>
                  getPubMedIdsLoop ncbi dois batchSize (i + batchSize)
                    (storeRecords reported records)
                    (requested @ [take batchSize (drop i dois)])))
      else Some (Inr records, requested))"

definition getPubMedIds ::
  "(nat \<Rightarrow> string list \<Rightarrow> error + json) \<Rightarrow> string list \<Rightarrow> nat
     \<Rightarrow> ((error + (string \<rightharpoonup> string)) \<times> string list list) option" where
  "getPubMedIds ncbi dois batchSize = getPubMedIdsLoop ncbi dois batchSize 0 Map.empty []"

subsection \<open>The batches\<close>

text \<open>
  The batches of a list of DOIs: consecutive slices of the batch size, the last one
  possibly shorter. \<open>processBatches\<close> is the loop of \<^verbatim>\<open>getPubMedIds\<close> as a recursion
  over the batches that remain.
\<close>

function chunks :: "nat \<Rightarrow> 'a list \<Rightarrow> 'a list list" where
  "chunks n xs = (if n = 0 \<or> xs = [] then [] else take n xs # chunks n (drop n xs))"
  by pat_completeness auto
termination
  by (relation "measure (\<lambda>(n, xs). length xs)") auto

declare chunks.simps [simp del]

fun processBatches ::
  "(nat \<Rightarrow> string list \<Rightarrow> error + json) \<Rightarrow> nat \<Rightarrow> nat \<Rightarrow> string list list \<Rightarrow> (string \<rightharpoonup> string)
     \<Rightarrow> string list list \<Rightarrow> (error + (string \<rightharpoonup> string)) \<times> string list list" where
  "processBatches ncbi batchSize i [] records requested = (Inr records, requested)"
| "processBatches ncbi batchSize i (batch # rest) records requested =
     (case ncbi i batch of
        Inl e \<Rightarrow> (Inl e, requested @ [batch])
      | Inr data \<Rightarrow>
          (case ncbiIdConverterResponseSchema (Some data) of
             Inl e \<Rightarrow> (Inl e, requested @ [batch])
           | Inr reported \<Rightarrow>
               processBatches ncbi batchSize (i + batchSize) rest
                 (storeRecords reported records) (requested @ [batch])))"

subsection \<open>The answers of the service in the words of the specification\<close>

text \<open>
  What a response body reports is read off the JSON document itself. Its member
  \<open>records\<close> is an array. A record is well formed when it is an object whose \<open>doi\<close> is
  a string and whose \<open>pmid\<close> is absent or a string. A record reports a DOI with a
  resolved PubMed identifier when both are strings and the identifier is not empty.
\<close>

definition recordsOf :: "json \<Rightarrow> json list option" where
  "recordsOf body =
     (case body of
        JObj members \<Rightarrow> (case map_of members ''records'' of Some (JArr rs) \<Rightarrow> Some rs | _ \<Rightarrow> None)
      | _ \<Rightarrow> None)"

definition wellFormedRecord :: "json \<Rightarrow> bool" where
  "wellFormedRecord r =
     (case r of
        JObj members \<Rightarrow>
          (case map_of members ''doi'' of
             Some (JStr doi) \<Rightarrow>
               (case map_of members ''pmid'' of None \<Rightarrow> True | Some (JStr ident) \<Rightarrow> True | _ \<Rightarrow> False)
           | _ \<Rightarrow> False)
      | _ \<Rightarrow> False)"

definition wellFormedResponse :: "json \<Rightarrow> bool" where
  "wellFormedResponse body =
     (case recordsOf body of Some rs \<Rightarrow> list_all wellFormedRecord rs | None \<Rightarrow> False)"

definition resolvedPair :: "json \<Rightarrow> (string \<times> string) option" where
  "resolvedPair r =
     (case r of
        JObj members \<Rightarrow>
          (case (map_of members ''doi'', map_of members ''pmid'') of
             (Some (JStr doi), Some (JStr ident)) \<Rightarrow> if ident = [] then None else Some (doi, ident)
           | _ \<Rightarrow> None)
      | _ \<Rightarrow> None)"

definition resolvedPairs :: "json \<Rightarrow> (string \<times> string) list" where
  "resolvedPairs body =
     (case recordsOf body of Some rs \<Rightarrow> List.map_filter resolvedPair rs | None \<Rightarrow> [])"

text \<open>
  The answers to the requests of a run with the batch size 100 that starts at the
  offset \<open>i\<close>: request \<open>j\<close> sends batch \<open>j\<close> at the offset \<open>i + 100 * j\<close>. An answer is
  good when it is a well-formed response body; one that is not ends the run with the
  error of the request or with the validation error. The map of the specification gives
  each DOI the identifier of the last pair reported for it.
\<close>

definition answers :: "(nat \<Rightarrow> string list \<Rightarrow> error + json) \<Rightarrow> nat \<Rightarrow> string list list \<Rightarrow> (error + json) list" where
  "answers ncbi i batches = map (\<lambda>j. ncbi (i + 100 * j) (batches ! j)) [0..<length batches]"

definition answerOk :: "error + json \<Rightarrow> bool" where
  "answerOk a = (case a of Inl e \<Rightarrow> False | Inr body \<Rightarrow> wellFormedResponse body)"

definition answerError :: "error + json \<Rightarrow> error" where
  "answerError a = (case a of Inl e \<Rightarrow> e | Inr body \<Rightarrow> ZodError)"

definition answerPairs :: "error + json \<Rightarrow> (string \<times> string) list" where
  "answerPairs a = (case a of Inl e \<Rightarrow> [] | Inr body \<Rightarrow> resolvedPairs body)"

definition lastReported :: "(string \<times> string) list \<Rightarrow> (string \<rightharpoonup> string)" where
  "lastReported pairs = map_of (rev pairs)"

definition reportedPairs ::
  "(nat \<Rightarrow> string list \<Rightarrow> error + json) \<Rightarrow> string list \<Rightarrow> (string \<times> string) list" where
  "reportedPairs ncbi dois = concat (map answerPairs (answers ncbi 0 (chunks 100 dois)))"

section \<open>Export writer\<close>

subsection \<open>The date of an item as a JavaScript time value\<close>

text \<open>
  \<^verbatim>\<open>new Date(year, month).getTime()\<close>, after the ECMAScript specification of the
  \<^verbatim>\<open>Date\<close> constructor: a year from 0 to 99 means 1900 + year; the month index counts
  from 0 and a month index outside 0..11 carries into the year (\<^verbatim>\<open>MakeDay\<close>); the
  time value is the day number times the milliseconds of a day, and \<^verbatim>\<open>NaN\<close>
  beyond \<open>8.64 * 10\<^sup>1\<^sup>5\<close> (\<^verbatim>\<open>TimeClip\<close>). An \<^verbatim>\<open>undefined\<close> or \<^verbatim>\<open>NaN\<close> argument gives
  \<^verbatim>\<open>NaN\<close>. The local time zone is taken to be UTC.
\<close>

definition DayFromYear :: "int \<Rightarrow> int" where
  "DayFromYear y =
     365 * (y - 1970) + (y - 1969) div 4 - (y - 1901) div 100 + (y - 1601) div 400"

definition InLeapYear :: "int \<Rightarrow> bool" where
  "InLeapYear y = (y mod 4 = 0 \<and> (y mod 400 = 0 \<or> y mod 100 \<noteq> 0))"

definition monthStartDay :: "int \<Rightarrow> bool \<Rightarrow> int" where
  "monthStartDay mn leap =
     [0, 31, 59, 90, 120, 151, 181, 212, 243, 273, 304, 334] ! nat mn
       + (if leap \<and> 2 \<le> mn then 1 else 0)"

definition MakeDay :: "int \<Rightarrow> int \<Rightarrow> int" where
  "MakeDay yr m =
     (let ym = yr + m div 12; mn = m mod 12
      in DayFromYear ym + monthStartDay mn (InLeapYear ym))"

definition TimeClip :: "int \<Rightarrow> jsnum" where
  "TimeClip t = (if 8640000000000000 < \<bar>t\<bar> then NaN else Num t)"

definition dateTime :: "jsnum option \<Rightarrow> jsnum \<Rightarrow> jsnum" where
  "dateTime y m =
     (case (y, m) of
        (Some (Num yi), Num mi) \<Rightarrow>
          TimeClip (MakeDay (if 0 \<le> yi \<and> yi \<le> 99 then 1900 + yi else yi) mi * 86400000)
      | _ \<Rightarrow> NaN)"

text \<open>
  The comparator of the export sort:
  \<^verbatim>\<open>new Date(b.date.year, b.date.month ?? 0).getTime() - new Date(a.date.year, a.date.month ?? 0).getTime()\<close>.
\<close>

definition monthOrZero :: "ZoteroItem \<Rightarrow> jsnum" where
  "monthOrZero x = (case month (date x) of None \<Rightarrow> Num 0 | Some m \<Rightarrow> m)"

fun jsMinus :: "jsnum \<Rightarrow> jsnum \<Rightarrow> jsnum" where
  "jsMinus (Num x) (Num y) = Num (x - y)"
| "jsMinus _ _ = NaN"

definition compareByDate :: "ZoteroItem \<Rightarrow> ZoteroItem \<Rightarrow> jsnum" where
  "compareByDate x y =
     (let dateA = dateTime (year (date x)) (monthOrZero x);
          dateB = dateTime (year (date y)) (monthOrZero y)
      in jsMinus dateB dateA)"

text \<open>
  \<^verbatim>\<open>Array.prototype.toSorted\<close> with a comparator. A comparator result \<^verbatim>\<open>NaN\<close>
  counts as 0. The sort is stable; it is modelled as the insertion of each element, from
  the last to the first, before the first element that it does not sort after. (For
  a consistent comparator every stable sort gives this result; for an inconsistent one
  the language leaves the order to the implementation.)
\<close>

definition sortCompare :: "('a \<Rightarrow> 'a \<Rightarrow> jsnum) \<Rightarrow> 'a \<Rightarrow> 'a \<Rightarrow> int" where
  "sortCompare comparefn x y = (case comparefn x y of NaN \<Rightarrow> 0 | Num v \<Rightarrow> v)"

fun insertSorted :: "('a \<Rightarrow> 'a \<Rightarrow> jsnum) \<Rightarrow> 'a \<Rightarrow> 'a list \<Rightarrow> 'a list" where
  "insertSorted comparefn x [] = [x]"
| "insertSorted comparefn x (y # ys) =
     (if sortCompare comparefn x y \<le> 0 then x # y # ys
      else y # insertSorted comparefn x ys)"

definition toSorted :: "('a \<Rightarrow> 'a \<Rightarrow> jsnum) \<Rightarrow> 'a list \<Rightarrow> 'a list" where
  "toSorted comparefn xs = foldr (insertSorted comparefn) xs []"

subsection \<open>The sort key of the specification\<close>

text \<open>
  The key (year, month-or-0) of an item whose year and month are numbers, the order of
  two keys, and the time value of a key. A date is ordinary when its year has three or
  four digits and its month index, if any, is between 0 and 11.
\<close>

definition dateKey :: "ZoteroItem \<Rightarrow> (int \<times> int) option" where
  "dateKey x =
     (case (year (date x), monthOrZero x) of
        (Some (Num y), Num m) \<Rightarrow> Some (y, m)
      | _ \<Rightarrow> None)"

definition ordinaryDate :: "ZoteroItem \<Rightarrow> bool" where
  "ordinaryDate x =
     (case dateKey x of
        Some (y, m) \<Rightarrow> 100 \<le> y \<and> y \<le> 9999 \<and> 0 \<le> m \<and> m \<le> 11
      | None \<Rightarrow> False)"

definition keyLe :: "int \<times> int \<Rightarrow> int \<times> int \<Rightarrow> bool" where
  "keyLe k k' = (fst k < fst k' \<or> (fst k = fst k' \<and> snd k \<le> snd k'))"

definition timeOfKey :: "int \<times> int \<Rightarrow> int" where
  "timeOfKey k = MakeDay (fst k) (snd k) * 86400000"

subsection \<open>Enrichment and serialisation\<close>

text \<open>
  The property read \<^verbatim>\<open>idMap[name]\<close>. The object that \<^verbatim>\<open>getPubMedIds\<close> returns is a
  plain object: a name that is no own property is looked up in \<^verbatim>\<open>Object.prototype\<close>,
  whose members are functions, but for the accessor \<^verbatim>\<open>__proto__\<close> that gives the
  prototype itself. So the value read is a string that the loop has stored, a member of
  the prototype, or \<^verbatim>\<open>undefined\<close>.
\<close>

datatype propertyValue = StringValue string | PrototypeMember string

definition objectPrototypeNames :: "string list" where
  "objectPrototypeNames =
     [''constructor'', ''__defineGetter__'', ''__defineSetter__'', ''hasOwnProperty'',
      ''__lookupGetter__'', ''__lookupSetter__'', ''isPrototypeOf'', ''propertyIsEnumerable'',
      ''toString'', ''valueOf'', ''__proto__'', ''toLocaleString'']"

definition getProperty :: "(string \<rightharpoonup> string) \<Rightarrow> string \<Rightarrow> propertyValue option" where
  "getProperty obj name =
     (case obj name of
        Some v \<Rightarrow> Some (StringValue v)
      | None \<Rightarrow> if name \<in> set objectPrototypeNames then Some (PrototypeMember name) else None)"

text \<open>
  \<^verbatim>\<open>{pmid: idMap[item.DOI as string], ...item}\<close>. An absent DOI is the property name
  \<open>undefined\<close>.
\<close>

record EnrichedItem =
  pmid :: "propertyValue option"
  item :: ZoteroItem

definition attachPmid :: "(string \<rightharpoonup> string) \<Rightarrow> ZoteroItem \<Rightarrow> EnrichedItem" where
  "attachPmid idMap x =
     \<lparr>pmid = getProperty idMap (case DOI x of None \<Rightarrow> ''undefined'' | Some d \<Rightarrow> d), item = x\<rparr>"

text \<open>
  \<^verbatim>\<open>toCsv\<close>. The rows are built first, each with the formatted citation; the columns
  are \<^verbatim>\<open>Object.keys(rows[0])\<close>, which throws a \<^verbatim>\<open>TypeError\<close> when there is no
  row, since \<^verbatim>\<open>rows[0]\<close> is \<^verbatim>\<open>undefined\<close>. The text that the CSV library makes of
  the table is not modelled: the result is the table.
\<close>

record CsvRow =
  csvMonth :: "jsnum option"
  csvYear :: "jsnum option"
  csvCitation :: string
  csvPubMedID :: "propertyValue option"
  csvDOI :: "string option"

record CsvTable =
  columns :: "string list"
  rows :: "CsvRow list"

fun toCsvRows :: "EnrichedItem list \<Rightarrow> (error + CsvRow list) \<times> diagnostic list" where
  "toCsvRows [] = (Inr [], [])"
| "toCsvRows (pub # pubs) =
     (case formatCitation (item pub) of
        (Inl e, log) \<Rightarrow> (Inl e, log)
      | (Inr citation, log) \<Rightarrow>
          (case toCsvRows pubs of
             (Inl e, log') \<Rightarrow> (Inl e, log @ log')
           | (Inr rest, log') \<Rightarrow>
               (Inr (\<lparr>csvMonth = month (date (item pub)), csvYear = year (date (item pub)),
                       csvCitation = citation, csvPubMedID = pmid pub,
                       csvDOI = DOI (item pub)\<rparr> # rest), log @ log')))"

definition toCsv :: "EnrichedItem list \<Rightarrow> (error + CsvTable) \<times> diagnostic list" where
  "toCsv pubs =
     (case toCsvRows pubs of
        (Inl e, log) \<Rightarrow> (Inl e, log)
      | (Inr [], log) \<Rightarrow> (Inl TypeError, log)
      | (Inr (r # rs), log) \<Rightarrow>
          (Inr \<lparr>columns = [''Month'', ''Year'', ''Citation'', ''PubMed ID'', ''DOI''],
                rows = r # rs\<rparr>, log))"

text \<open>
  The effects of a run: the files written, in order, each with its payload, and the
  diagnostics printed. A file is named by its name inside the output directory.
\<close>

datatype payload = JsonDocument "EnrichedItem list" | CsvDocument CsvTable

record World =
  files :: "(string \<times> payload) list"
  console :: "diagnostic list"

definition emptyWorld :: World where
  "emptyWorld = \<lparr>files = [], console = []\<rparr>"

definition writeTextFile :: "string \<Rightarrow> payload \<Rightarrow> World \<Rightarrow> World" where
  "writeTextFile name content w = w\<lparr>files := files w @ [(name, content)]\<rparr>"

definition logAll :: "diagnostic list \<Rightarrow> World \<Rightarrow> World" where
  "logAll log w = w\<lparr>console := console w @ log\<rparr>"

text \<open>
  The export block of \<^verbatim>\<open>main\<close>: three writes, each after its content has been
  computed, so that a throwing \<^verbatim>\<open>toCsv\<close> leaves its file and the later ones unwritten.
\<close>

definition exportPapers :: "EnrichedItem list \<Rightarrow> World \<Rightarrow> (error + unit) \<times> World" where
  "exportPapers withPubMedIds w =
     (let w = writeTextFile ''papers.json'' (JsonDocument withPubMedIds) w in
      case toCsv (filter (\<lambda>p. itemType (item p) \<noteq> ''preprint'') withPubMedIds) of
        (Inl e, log) \<Rightarrow> (Inl e, logAll log w)
      | (Inr pubsCsv, log) \<Rightarrow>
          (let w = writeTextFile ''pubs.csv'' (CsvDocument pubsCsv) (logAll log w) in
           case toCsv (filter (\<lambda>p. itemType (item p) = ''preprint'') withPubMedIds) of
             (Inl e, log) \<Rightarrow> (Inl e, logAll log w)
           | (Inr preprintsCsv, log) \<Rightarrow>
               (Inr (), writeTextFile ''preprints.csv'' (CsvDocument preprintsCsv) (logAll log w))))"

section \<open>The run\<close>

definition HIDIVE_GROUP_ID :: string where
  "HIDIVE_GROUP_ID = ''5145258''"

definition HIDIVE_PUBLICATIONS_COLLECTION_ID :: string where
  "HIDIVE_PUBLICATIONS_COLLECTION_ID = ''YGTEVG73''"

definition HIDIVE_PREPRINTS_COLLECTION_ID :: string where
  "HIDIVE_PREPRINTS_COLLECTION_ID = ''AJKTPNSI''"

text \<open>\<^verbatim>\<open>items.map((item) => item.DOI).filter((d) => typeof d === "string")\<close>.\<close>

definition doisOf :: "ZoteroItem list \<Rightarrow> string list" where
  "doisOf items = map the (filter (\<lambda>d. d \<noteq> None) (map DOI items))"

definition sortAndAttach :: "(string \<rightharpoonup> string) \<Rightarrow> ZoteroItem list \<Rightarrow> EnrichedItem list" where
  "sortAndAttach idMap items = map (attachPmid idMap) (toSorted compareByDate items)"

text \<open>
  \<^verbatim>\<open>main\<close> of the latest revision: both collections are fetched, the PubMed
  identifiers resolved, the items sorted and exported. An error thrown on the way ends
  the run; \<open>None\<close> is a run that never ends.
\<close>

definition main ::
  "(string \<Rightarrow> jsnum) \<Rightarrow> zoteroApi \<Rightarrow> (nat \<Rightarrow> string list \<Rightarrow> error + json)
     \<Rightarrow> ((error + unit) \<times> World) option" where
  "main stringToNumber zotero ncbi =
     (case fetchZoteroCollection stringToNumber zotero HIDIVE_GROUP_ID
             HIDIVE_PUBLICATIONS_COLLECTION_ID of
        None \<Rightarrow> None
      | Some (Inl e, _) \<Rightarrow> Some (Inl e, emptyWorld)
      | Some (Inr pubs, _) \<Rightarrow>
          (case fetchZoteroCollection stringToNumber zotero HIDIVE_GROUP_ID
                  HIDIVE_PREPRINTS_COLLECTION_ID of
             None \<Rightarrow> None
           | Some (Inl e, _) \<Rightarrow> Some (Inl e, emptyWorld)
           | Some (Inr preprints, _) \<Rightarrow>
               (case getPubMedIds ncbi (doisOf (pubs @ preprints)) 100 of
                  None \<Rightarrow> None
                | Some (Inl e, _) \<Rightarrow> Some (Inl e, emptyWorld)
                | Some (Inr idMap, _) \<Rightarrow>
                    Some (exportPapers (sortAndAttach idMap (pubs @ preprints)) emptyWorld))))"

section \<open>The revision that lists the item keys\<close>

text \<open>
  An earlier revision of the script fetches the keys of each collection, checks that
  the two sets of keys do not overlap, and then fetches the items one by one. Its
  formatter has no assertion and no filter on the creator type.

  \<^verbatim>\<open>fetchHidiveZoteroItemKeys\<close>: the keys API is a function from the collection and the
  \<open>itemType\<close> filter to the response text. A \<^verbatim>\<open>Set\<close> is the list of its elements in
  insertion order. (\<^verbatim>\<open>trim\<close> is modelled for the ASCII white space.)
\<close>

definition trim :: "string \<Rightarrow> string" where
  "trim s = rev (dropWhile isSpace (rev (dropWhile isSpace s)))"

fun splitLines :: "string \<Rightarrow> string list" where
  "splitLines [] = [[]]"
| "splitLines (c # cs) =
     (if c = CHR 0x0A then [] # splitLines cs
      else (case splitLines cs of [] \<Rightarrow> [[c]] | l # ls \<Rightarrow> (c # l) # ls))"

definition setAdd :: "'a \<Rightarrow> 'a list \<Rightarrow> 'a list" where
  "setAdd x xs = (if x \<in> set xs then xs else xs @ [x])"

definition setDelete :: "'a \<Rightarrow> 'a list \<Rightarrow> 'a list" where
  "setDelete x xs = filter (\<lambda>y. y \<noteq> x) xs"

definition fetchHidiveZoteroItemKeys ::
  "(string \<Rightarrow> string \<Rightarrow> error + string) \<Rightarrow> string \<Rightarrow> error + string list" where
  "fetchHidiveZoteroItemKeys keysApi collectionId =
     bindE (keysApi collectionId ''-attachment'') (\<lambda>text.
       let ids = foldl (\<lambda>ids id. setAdd id ids) [] (splitLines (trim text)) in
       bindE (keysApi collectionId ''note'') (\<lambda>text.
         Inr (foldl (\<lambda>ids id. setDelete id ids) ids (splitLines (trim text)))))"

text \<open>
  The loop over the item keys: an item whose fetch throws is fetched once more; when
  that throws too, a diagnostic is printed and the run goes on without the item.
  \<^verbatim>\<open>fetchZoteroItem\<close>, with its own schema, is a function from the key and the attempt
  to the validated item or the error thrown. (The items of this revision carry one more
  field, the formatted bibliography entry, which only the JSON document shows; it is
  not represented.)
\<close>

fun fetchItems :: "(string \<Rightarrow> nat \<Rightarrow> error + ZoteroItem) \<Rightarrow> string list \<Rightarrow> ZoteroItem list \<times> diagnostic list" where
  "fetchItems fetchZoteroItem [] = ([], [])"
| "fetchItems fetchZoteroItem (itemKey # itemKeys) =
     (let (got, log) =
            (case fetchZoteroItem itemKey 0 of
               Inr x \<Rightarrow> ([x], [])
             | Inl _ \<Rightarrow>
                 (case fetchZoteroItem itemKey 1 of
                    Inr x \<Rightarrow> ([x], [])
                  | Inl e \<Rightarrow> ([], [CouldNotFetch itemKey e])));
          (rest, log') = fetchItems fetchZoteroItem itemKeys
      in (got @ rest, log @ log'))"

definition formatAuthors_keys :: "Author list \<Rightarrow> string" where
  "formatAuthors_keys authors =
     (let formatted = map (formatAuthor False) authors
      in if length formatted = 2 then join '' and '' formatted else join '', '' formatted)"

definition formatJournalInfo_keys :: "ZoteroItem \<Rightarrow> string" where
  "formatJournalInfo_keys meta =
     (if itemType meta = ''thesis'' then ''Thesis''
      else if itemType meta = ''preprint'' then
        (if optIncludes (url meta) ''arxiv'' then ''arXiv''
         else if optIncludes (url meta) ''biorxiv'' then ''bioRxiv''
         else if optIncludes (url meta) ''medrxiv'' then ''medRxiv''
         else if optIncludes (url meta) ''osf'' then ''OSF Preprints''
         else ''Preprint'')
      else if \<not> truthy (publicationTitle meta) then []
      else journalCitation meta False)"

definition formatCitation_keys :: "ZoteroItem \<Rightarrow> string" where
  "formatCitation_keys meta =
     formatAuthors_keys (creators meta) @ '', '' @ dquote @ title meta @ dquote @ '', ''
       @ formatJournalInfo_keys meta @ '' ('' @ showNum (year (date meta)) @ '').''"

definition toCsv_keys :: "EnrichedItem list \<Rightarrow> error + CsvTable" where
  "toCsv_keys pubs =
     (case map (\<lambda>pub. \<lparr>csvMonth = month (date (item pub)), csvYear = year (date (item pub)),
                        csvCitation = formatCitation_keys (item pub), csvPubMedID = pmid pub,
                        csvDOI = DOI (item pub)\<rparr>) pubs of
        [] \<Rightarrow> Inl TypeError
      | r # rs \<Rightarrow>
          Inr \<lparr>columns = [''Month'', ''Year'', ''Citation'', ''PubMed ID'', ''DOI''],
               rows = r # rs\<rparr>)"

text \<open>The part of \<^verbatim>\<open>main\<close> after the assertion.\<close>

definition collectAndExport_keys ::
  "(string \<Rightarrow> nat \<Rightarrow> error + ZoteroItem) \<Rightarrow> (nat \<Rightarrow> string list \<Rightarrow> error + json) \<Rightarrow> string list
     \<Rightarrow> ((error + unit) \<times> World) option" where
  "collectAndExport_keys fetchZoteroItem ncbi itemKeys =
     (let (items, log) = fetchItems fetchZoteroItem itemKeys;
          w = logAll log emptyWorld
      in case getPubMedIds ncbi (doisOf items) 100 of
           None \<Rightarrow> None
         | Some (Inl e, _) \<Rightarrow> Some (Inl e, w)
         | Some (Inr idMap, _) \<Rightarrow>
             (let final = sortAndAttach idMap items;
                  w = writeTextFile ''pubs.json'' (JsonDocument final) w
              in case toCsv_keys (filter (\<lambda>p. itemType (item p) \<noteq> ''preprint'') final) of
                   Inl e \<Rightarrow> Some (Inl e, w)
                 | Inr pubsCsv \<Rightarrow>
                     (let w = writeTextFile ''pubs.csv'' (CsvDocument pubsCsv) w
                      in case toCsv_keys (filter (\<lambda>p. itemType (item p) = ''preprint'') final) of
                           Inl e \<Rightarrow> Some (Inl e, w)
                         | Inr preprintsCsv \<Rightarrow>
                             Some (Inr (), writeTextFile ''preprints.csv''
                                             (CsvDocument preprintsCsv) w))))"

text \<open>
  \<^verbatim>\<open>main\<close> of this revision. The two sets of keys are awaited together; the assertion
  \<^verbatim>\<open>pubIds.intersection(preprintIds).size === 0\<close> comes before everything else.
\<close>

definition main_keys ::
  "(string \<Rightarrow> string \<Rightarrow> error + string) \<Rightarrow> (string \<Rightarrow> nat \<Rightarrow> error + ZoteroItem)
     \<Rightarrow> (nat \<Rightarrow> string list \<Rightarrow> error + json) \<Rightarrow> ((error + unit) \<times> World) option" where
  "main_keys keysApi fetchZoteroItem ncbi =
     (case fetchHidiveZoteroItemKeys keysApi HIDIVE_PUBLICATIONS_COLLECTION_ID of
        Inl e \<Rightarrow> Some (Inl e, emptyWorld)
      | Inr pubIds \<Rightarrow>
          (case fetchHidiveZoteroItemKeys keysApi HIDIVE_PREPRINTS_COLLECTION_ID of
             Inl e \<Rightarrow> Some (Inl e, emptyWorld)
           | Inr preprintIds \<Rightarrow>
               if filter (\<lambda>k. k \<in> set preprintIds) pubIds \<noteq> []
               then Some (Inl (AssertionError ''Overlap between collections''), emptyWorld)
               else collectAndExport_keys fetchZoteroItem ncbi (pubIds @ preprintIds)))"

section \<open>Example records\<close>

text \<open>
  Raw records as the Zotero API returns them (with the members that the schema reads),
  and the items that the schema makes of them.
\<close>

definition rawArticle :: json where
  "rawArticle =
     JObj [(''key'', JStr ''K1''),
           (''data'', JObj [(''key'', JStr ''K1''), (''version'', JNum 7),
              (''itemType'', JStr ''journalArticle''), (''title'', JStr ''Gosling''),
              (''creators'', JArr [JObj [(''creatorType'', JStr ''author''),
                 (''firstName'', JStr ''Jane Ann''), (''lastName'', JStr ''Doe'')]]),
              (''abstractNote'', JStr ''Abstract  A grammar.''),
              (''publicationTitle'', JStr ''Nature''), (''volume'', JStr ''600''),
              (''issue'', JStr []), (''pages'', JStr ''100-110''),
              (''DOI'', JStr ''10.1/a'')]),
           (''csljson'', JObj [(''issued'',
              JObj [(''date-parts'', JArr [JArr [JNum 2023, JNum 12]])])])]"

definition articleItem :: ZoteroItem where
  "articleItem =
     \<lparr>key = ''K1'', version = 7, itemType = ''journalArticle'', title = ''Gosling'',
      creators = [Person author ''Jane Ann'' ''Doe''], abstractNote = ''A grammar.'',
      institution = None, bookTitle = None, proceedingsTitle = None,
      publicationTitle = Some ''Nature'', volume = Some ''600'', issue = None,
      pages = Some ''100-110'', series = None, seriesTitle = None, seriesText = None,
      journalAbbreviation = None, DOI = Some ''10.1/a'', ISSN = None, shortTitle = None,
      url = None,
      date = \<lparr>year = Some (Num 2023), month = Some (Num 12), day = None\<rparr>\<rparr>"

definition rawPreprint :: json where
  "rawPreprint =
     JObj [(''key'', JStr ''K2''),
           (''data'', JObj [(''key'', JStr ''K2''), (''version'', JNum 3),
              (''itemType'', JStr ''preprint''), (''title'', JStr ''Vitessce''),
              (''creators'', JArr [JObj [(''creatorType'', JStr ''author''),
                 (''name'', JStr ''HuBMAP Consortium'')]]),
              (''abstractNote'', JStr []),
              (''url'', JStr ''https://osf.io/y8thv'')]),
           (''csljson'', JObj [(''issued'',
              JObj [(''date-parts'', JArr [JArr [JNum 2024]])])])]"

definition preprintItem :: ZoteroItem where
  "preprintItem =
     \<lparr>key = ''K2'', version = 3, itemType = ''preprint'', title = ''Vitessce'',
      creators = [Named author ''HuBMAP Consortium''], abstractNote = [],
      institution = None, bookTitle = None, proceedingsTitle = None,
      publicationTitle = None, volume = None, issue = None,
      pages = None, series = None, seriesTitle = None, seriesText = None,
      journalAbbreviation = None, DOI = None, ISSN = None, shortTitle = None,
      url = Some ''https://osf.io/y8thv'',
      date = \<lparr>year = Some (Num 2024), month = None, day = None\<rparr>\<rparr>"

definition noteRecord :: json where
  "noteRecord = JObj [(''key'', JStr ''N1''), (''data'', JObj [(''itemType'', JStr ''note'')])]"

definition exampleNcbi :: "nat \<Rightarrow> string list \<Rightarrow> error + json" where
  "exampleNcbi i batch =
     Inr (JObj [(''status'', JStr ''ok''),
                (''records'', JArr [JObj [(''doi'', JStr ''10.1/a''), (''pmid'', JStr ''123'')],
                                    JObj [(''doi'', JStr ''10.2/b'')],
                                    JObj [(''doi'', JStr ''10.3/c''), (''pmid'', JStr [])]])])"

text \<open>
  A converter service for a run over 250 DOIs: it answers each batch with one record
  per DOI, with the identifier that its table has for the DOI, if any (one of them
  empty); and the same service with a second request that fails.
\<close>

definition doiOf :: "nat \<Rightarrow> string" where
  "doiOf n = ''10.1/'' @ showNat n"

definition exampleDois :: "string list" where
  "exampleDois = map doiOf [0..<250]"

definition pmidTable :: "(string \<times> string) list" where
  "pmidTable = [(''10.1/7'', ''111''), (''10.1/150'', []), (''10.1/203'', ''222'')]"

definition tablePair :: "string \<Rightarrow> (string \<times> string) option" where
  "tablePair d =
     (case map_of pmidTable d of Some p \<Rightarrow> if p = [] then None else Some (d, p) | None \<Rightarrow> None)"

definition bulkRecord :: "string \<Rightarrow> json" where
  "bulkRecord d =
     JObj ((''doi'', JStr d)
           # (case map_of pmidTable d of Some p \<Rightarrow> [(''pmid'', JStr p)] | None \<Rightarrow> []))"

definition bulkNcbi :: "nat \<Rightarrow> string list \<Rightarrow> error + json" where
  "bulkNcbi i batch = Inr (JObj [(''status'', JStr ''ok''), (''records'', JArr (map bulkRecord batch))])"

definition failingNcbi :: "nat \<Rightarrow> string list \<Rightarrow> error + json" where
  "failingNcbi i batch = (if i = 100 then Inl FetchError else bulkNcbi i batch)"

definition datedItem :: "int \<Rightarrow> jsnum option \<Rightarrow> ZoteroItem" where
  "datedItem y m = blankItem\<lparr>date := \<lparr>year = Some (Num y), month = m, day = None\<rparr>\<rparr>"

text \<open>
  Remote services for example runs: two collections that share the item \<open>K2\<close>, a
  publications collection with an empty preprints collection, key listings that
  overlap and that do not, and an item service whose first attempt at \<open>K1\<close> fails.
\<close>

definition overlappingZotero :: zoteroApi where
  "overlappingZotero g c =
     (if c = HIDIVE_PUBLICATIONS_COLLECTION_ID then servePages [rawArticle, rawPreprint]
      else servePages [rawPreprint])"


definition overlappingKeysApi :: "string \<Rightarrow> string \<Rightarrow> error + string" where
  "overlappingKeysApi c itemTypeFilter =
     (if itemTypeFilter = ''note'' then Inr []
      else if c = HIDIVE_PUBLICATIONS_COLLECTION_ID
      then Inr (''K1'' @ [CHR 0x0A] @ ''K2'' @ [CHR 0x0A])
      else Inr (''K2'' @ [CHR 0x0A]))"

definition disjointKeysApi :: "string \<Rightarrow> string \<Rightarrow> error + string" where
  "disjointKeysApi c itemTypeFilter =
     (if itemTypeFilter = ''note'' then Inr []
      else if c = HIDIVE_PUBLICATIONS_COLLECTION_ID
      then Inr (''K1'' @ [CHR 0x0A])
      else Inr (''K2'' @ [CHR 0x0A]))"

definition exampleFetchItem :: "string \<Rightarrow> nat \<Rightarrow> error + ZoteroItem" where
  "exampleFetchItem itemKey attempt =
     (if itemKey = ''K1'' then (if attempt = 0 then Inl FetchError else Inr articleItem)
      else if itemKey = ''K2'' then Inr preprintItem
      else Inl FetchError)"

section \<open>Properties of the citation formatter\<close>





lemma startsWith_prefix: "startsWith s n = prefix n s"
  by (induction s n rule: startsWith.induct) auto

lemma includes_str_sublist: "includes_str s n = sublist n s"
  by (induction s) (simp_all add: startsWith_prefix sublist_Cons_right)

lemma optIncludes_sublist: "optIncludes (Some s) n = sublist n s"
  by (simp add: optIncludes_def includes_str_sublist)

lemma truthy_Some: "truthy (Some s) = (s \<noteq> [])"
  by (simp add: truthy_def)

lemma truthy_None: "truthy None = False"
  by (simp add: truthy_def)

lemma journalCitation_spec:
  assumes "publicationTitle meta = Some p"
  shows "journalCitation meta False
           = journalVenueSpec p (volume meta) (issue meta) (pages meta)"
  using assms
  by (cases "volume meta"; cases "issue meta"; cases "pages meta")
     (simp_all add: journalCitation_def journalVenueSpec_def optPart_def it_def b_def
        truthy_def Let_def)

text \<open>
  C3, as amended. A \<open>journalArticle\<close> with a publication title gets the venue string of
  the journal rule (plain rendering), and the item \<open>Nature, 600, 2, 100-110\<close> gets
  \<open>Nature 600(2):100-110\<close>. Without a publication title the venue string is empty, with
  the diagnostic, when none of \<open>proceedingsTitle\<close>, \<open>bookTitle\<close> and \<open>institution\<close> is
  present either.
\<close>

theorem journalArticle_venue:
  assumes "itemType meta = ''journalArticle''"
  shows "(publicationTitle meta = Some p \<and> p \<noteq> [] \<longrightarrow>
            formatJournalInfo meta False
              = (Inr (journalVenueSpec p (volume meta) (issue meta) (pages meta)), []))
       \<and> (\<not> truthy (publicationTitle meta) \<and> \<not> truthy (proceedingsTitle meta)
            \<and> \<not> truthy (bookTitle meta) \<and> \<not> truthy (institution meta) \<longrightarrow>
            formatJournalInfo meta False = (Inr [], [UnhandledItemType meta]))
       \<and> formatJournalInfo natureItem False = (Inr ''Nature 600(2):100-110'', [])"
proof (intro conjI impI)
  assume "publicationTitle meta = Some p \<and> p \<noteq> []"
  then show "formatJournalInfo meta False
      = (Inr (journalVenueSpec p (volume meta) (issue meta) (pages meta)), [])"
    using assms by (simp add: formatJournalInfo_def truthy_Some journalCitation_spec)
next
  assume "\<not> truthy (publicationTitle meta) \<and> \<not> truthy (proceedingsTitle meta)
            \<and> \<not> truthy (bookTitle meta) \<and> \<not> truthy (institution meta)"
  then show "formatJournalInfo meta False = (Inr [], [UnhandledItemType meta])"
    using assms by (simp add: formatJournalInfo_def)
next
  have "publicationTitle natureItem = Some ''Nature''"
    by (simp add: natureItem_def)
  then show "formatJournalInfo natureItem False = (Inr ''Nature 600(2):100-110'', [])"
    by (simp add: formatJournalInfo_def journalCitation_spec truthy_Some)
       (simp add: natureItem_def blankItem_def journalVenueSpec_def optPart_def truthy_def)
qed

theorem journalArticle_venue_witness:
  "formatJournalInfo (blankItem\<lparr>publicationTitle := Some ''Bioinformatics'', pages := Some ''12''\<rparr>)
       False = (Inr ''Bioinformatics 12'', [])
   \<and> formatJournalInfo blankItem False = (Inr [], [UnhandledItemType blankItem])"
proof -
  have t: "itemType (blankItem\<lparr>publicationTitle := Some ''Bioinformatics'', pages := Some ''12''\<rparr>)
             = ''journalArticle''"
    and u: "itemType blankItem = ''journalArticle''"
    by (simp_all add: blankItem_def)
  show ?thesis
    using journalArticle_venue [OF t, of "''Bioinformatics''"] journalArticle_venue [OF u]
    by (simp add: blankItem_def journalVenueSpec_def optPart_def truthy_def)
qed

text \<open>
  The claim C3 as written fails: a \<open>journalArticle\<close> without a publication title that
  carries a \<open>proceedingsTitle\<close> passes the schema, and \<^verbatim>\<open>formatJournalInfo\<close> then
  throws at \<^verbatim>\<open>assert(meta.itemType === "conferencePaper")\<close> instead of returning the
  empty venue string.
\<close>

theorem journalArticle_absent_title_counterexample:
  "itemType strayProceedingsItem = ''journalArticle''
   \<and> publicationTitle strayProceedingsItem = None
   \<and> formatJournalInfo strayProceedingsItem False
       = (Inl (AssertionError []), [])"
  by (simp add: strayProceedingsItem_def blankItem_def formatJournalInfo_def truthy_def)

text \<open>
  C6, as amended. The venue of a preprint (plain rendering) is the name of the first
  server in the order arXiv, bioRxiv, medRxiv, OSF, SSRN whose marker occurs in the url,
  and the literal \<open>Preprint\<close> when none does; so a url that contains \<open>biorxiv\<close> and
  does not contain \<open>arxiv\<close> gives \<open>bioRxiv\<close>, whatever the other fields are.
\<close>

theorem preprint_venue:
  assumes "itemType meta = ''preprint''"
  shows "formatJournalInfo meta False = (Inr (preprintVenueSpec (url meta)), [])
       \<and> (\<forall>u. url meta = Some u \<and> sublist ''biorxiv'' u \<and> \<not> sublist ''arxiv'' u \<longrightarrow>
              formatJournalInfo meta False = (Inr ''bioRxiv'', []))"
proof -
  have spec: "formatJournalInfo meta False = (Inr (preprintVenueSpec (url meta)), [])"
  proof (cases "url meta")
    case None
    then show ?thesis
      using assms
      by (simp add: formatJournalInfo_def optIncludes_def preprintVenueSpec_def it_def)
  next
    case (Some u)
    then show ?thesis
      using assms
      by (simp add: formatJournalInfo_def optIncludes_sublist preprintVenueSpec_def
            preprintServers_def it_def)
  qed
  have "preprintVenueSpec (Some u) = ''bioRxiv''"
    if "sublist ''biorxiv'' u" "\<not> sublist ''arxiv'' u" for u
    using that by (simp add: preprintVenueSpec_def preprintServers_def)
  with spec show ?thesis
    by auto
qed

theorem preprint_venue_witness:
  "formatJournalInfo
     (blankItem\<lparr>itemType := ''preprint'', url := Some ''https://www.biorxiv.org/x'',
                publicationTitle := Some ''bioRxiv : the preprint server''\<rparr>) False
     = (Inr ''bioRxiv'', [])"
proof -
  have t: "itemType (blankItem\<lparr>itemType := ''preprint'',
             url := Some ''https://www.biorxiv.org/x'',
             publicationTitle := Some ''bioRxiv : the preprint server''\<rparr>) = ''preprint''"
    by simp
  show ?thesis
    using preprint_venue [OF t]
    by (simp add: preprintVenueSpec_def preprintServers_def sublist_code)
qed

text \<open>
  The claim C6 as written fails: the markers are tried in priority order, so a url that
  contains \<open>biorxiv\<close> and also \<open>arxiv\<close> is rendered \<open>arXiv\<close>.
\<close>

theorem preprint_biorxiv_counterexample:
  "itemType bothServersItem = ''preprint''
   \<and> optIncludes (url bothServersItem) ''biorxiv''
   \<and> formatJournalInfo bothServersItem False = (Inr ''arXiv'', [])"
  by (simp add: bothServersItem_def blankItem_def formatJournalInfo_def optIncludes_def it_def)

lemma formatCitation_throws:
  "isl (fst (formatCitation meta)) = isl (fst (formatJournalInfo meta False))"
  by (cases "formatJournalInfo meta False")
     (auto simp: formatCitation_def formatZoteroItem_def Let_def split: sum.splits)

text \<open>
  C2, as amended. \<^verbatim>\<open>formatJournalInfo\<close> throws exactly when the item is neither a
  thesis nor a preprint and the first present field among \<open>publicationTitle\<close>,
  \<open>proceedingsTitle\<close>, \<open>bookTitle\<close>, \<open>institution\<close> belongs to another item type than
  the item's; what it throws is the assertion error, and \<^verbatim>\<open>formatCitation\<close> throws in
  the same cases. The diagnostic is logged exactly when the item is neither a thesis nor
  a preprint and none of the four fields is present, whatever the item type, and the
  venue is then empty.
\<close>

theorem formatJournalInfo_throws_iff:
  "(isl (fst (formatJournalInfo meta rich)) \<longleftrightarrow>
      itemType meta \<noteq> ''thesis'' \<and> itemType meta \<noteq> ''preprint''
      \<and> firstVenueOwner meta \<noteq> None \<and> firstVenueOwner meta \<noteq> Some (itemType meta))
   \<and> (isl (fst (formatJournalInfo meta rich)) \<longrightarrow>
        formatJournalInfo meta rich = (Inl (AssertionError []), []))
   \<and> (isl (fst (formatCitation meta)) \<longleftrightarrow> isl (fst (formatJournalInfo meta False)))
   \<and> (snd (formatJournalInfo meta rich) \<noteq> [] \<longleftrightarrow>
        itemType meta \<noteq> ''thesis'' \<and> itemType meta \<noteq> ''preprint''
        \<and> firstVenueOwner meta = None)
   \<and> (snd (formatJournalInfo meta rich) \<noteq> [] \<longrightarrow>
        formatJournalInfo meta rich = (Inr [], [UnhandledItemType meta]))"
proof -
  have 1: "isl (fst (formatJournalInfo meta rich)) \<longleftrightarrow>
      itemType meta \<noteq> ''thesis'' \<and> itemType meta \<noteq> ''preprint''
      \<and> firstVenueOwner meta \<noteq> None \<and> firstVenueOwner meta \<noteq> Some (itemType meta)"
    by (simp add: formatJournalInfo_def firstVenueOwner_def)
  have 2: "formatJournalInfo meta rich = (Inl (AssertionError []), [])"
    if "isl (fst (formatJournalInfo meta rich))"
    using that by (simp add: formatJournalInfo_def split: if_splits)
  have 3: "snd (formatJournalInfo meta rich) \<noteq> [] \<longleftrightarrow>
        itemType meta \<noteq> ''thesis'' \<and> itemType meta \<noteq> ''preprint''
        \<and> firstVenueOwner meta = None"
    by (simp add: formatJournalInfo_def firstVenueOwner_def)
  have 4: "formatJournalInfo meta rich = (Inr [], [UnhandledItemType meta])"
    if h: "snd (formatJournalInfo meta rich) \<noteq> []"
  proof -
    from h 3 have t: "itemType meta \<noteq> ''thesis''" "itemType meta \<noteq> ''preprint''"
      and n: "firstVenueOwner meta = None"
      by simp_all
    from n have "\<not> truthy (publicationTitle meta)" "\<not> truthy (proceedingsTitle meta)"
      "\<not> truthy (bookTitle meta)" "\<not> truthy (institution meta)"
      by (simp_all add: firstVenueOwner_def split: if_splits)
    with t show ?thesis
      by (simp add: formatJournalInfo_def)
  qed
  from 1 2 3 4 formatCitation_throws show ?thesis
    by blast
qed

theorem formatJournalInfo_throws_iff_witness:
  "\<not> isl (fst (formatJournalInfo natureItem False))
   \<and> \<not> isl (fst (formatCitation natureItem))
   \<and> isl (fst (formatJournalInfo strayPublicationItem True))
   \<and> snd (formatJournalInfo (blankItem\<lparr>itemType := ''magazineArticle''\<rparr>) False) \<noteq> []"
  using formatJournalInfo_throws_iff [of natureItem False]
    formatJournalInfo_throws_iff [of strayPublicationItem True]
    formatJournalInfo_throws_iff [of "blankItem\<lparr>itemType := ''magazineArticle''\<rparr>" False]
  by (simp add: firstVenueOwner_def natureItem_def strayPublicationItem_def blankItem_def
        truthy_def)

text \<open>
  The claim C2 as written fails on both counts: a \<open>conferencePaper\<close>, a recognised type,
  that carries a \<open>publicationTitle\<close> makes both functions throw; and a \<open>journalArticle\<close>,
  also a recognised type, with no venue field gets the empty venue and the diagnostic.
\<close>

theorem formatting_recognized_counterexample:
  "itemType strayPublicationItem = ''conferencePaper''
   \<and> fst (formatJournalInfo strayPublicationItem False) = Inl (AssertionError [])
   \<and> fst (formatCitation strayPublicationItem) = Inl (AssertionError [])
   \<and> itemType blankItem = ''journalArticle''
   \<and> formatJournalInfo blankItem False = (Inr [], [UnhandledItemType blankItem])"
  by (simp add: strayPublicationItem_def blankItem_def formatJournalInfo_def formatCitation_def
        formatZoteroItem_def truthy_def Let_def)

section \<open>Properties of the schema validator\<close>

lemma bindE_InrE:
  assumes "bindE m f = Inr y"
  obtains x where "m = Inr x" "f x = Inr y"
  using assms by (cases m) (simp_all add: bindE_def)

lemma zObject_InrE:
  assumes "zObject v = Inr d"
  obtains members where "v = Some (JObj members)" "d = map_of members"
  using assms by (cases v rule: zObject.cases) simp_all

lemma schema_optional_fields:
  assumes "zoteroItemSchema stringToNumber (Some raw) = Inr x"
  shows "maybeStringSchema (rawDataMember raw ''institution'') = Inr (institution x)
     \<and> maybeStringSchema (rawDataMember raw ''bookTitle'') = Inr (bookTitle x)
     \<and> maybeStringSchema (rawDataMember raw ''proceedingsTitle'') = Inr (proceedingsTitle x)
     \<and> maybeStringSchema (rawDataMember raw ''publicationTitle'') = Inr (publicationTitle x)
     \<and> maybeStringSchema (rawDataMember raw ''volume'') = Inr (volume x)
     \<and> maybeStringSchema (rawDataMember raw ''issue'') = Inr (issue x)
     \<and> maybeStringSchema (rawDataMember raw ''pages'') = Inr (pages x)
     \<and> maybeStringSchema (rawDataMember raw ''series'') = Inr (series x)
     \<and> maybeStringSchema (rawDataMember raw ''seriesTitle'') = Inr (seriesTitle x)
     \<and> maybeStringSchema (rawDataMember raw ''seriesText'') = Inr (seriesText x)
     \<and> maybeStringSchema (rawDataMember raw ''journalAbbreviation'') = Inr (journalAbbreviation x)
     \<and> maybeStringSchema (rawDataMember raw ''DOI'') = Inr (DOI x)
     \<and> maybeStringSchema (rawDataMember raw ''ISSN'') = Inr (ISSN x)
     \<and> maybeStringSchema (rawDataMember raw ''shortTitle'') = Inr (shortTitle x)
     \<and> maybeStringSchema (rawDataMember raw ''url'') = Inr (url x)"
  using assms unfolding zoteroItemSchema_def
  apply (elim bindE_InrE zObject_InrE)
  apply (simp only: sum.inject option.inject)
  apply hypsubst
  apply (simp (no_asm_simp) add: rawDataMember_def)
  done

lemma optional_field_parsed:
  assumes "zoteroItemSchema stringToNumber (Some raw) = Inr x"
    and "(name, field) \<in> set optionalTextFields"
  shows "maybeStringSchema (rawDataMember raw name) = Inr (field x)"
  using assms(2) schema_optional_fields [OF assms(1)]
  unfolding optionalTextFields_def list.set insert_iff empty_iff
  by (elim disjE conjE FalseE; simp only: prod.inject; elim conjE; hypsubst; assumption)

lemma optional_field_normalized:
  assumes "maybeStringSchema v = Inr r"
  shows "r \<noteq> Some []
       \<and> (v = Some (JStr []) \<longrightarrow> r = None)
       \<and> r = (case v of Some (JStr s) \<Rightarrow> if s = [] then None else Some s | _ \<Rightarrow> None)"
  using assms by (cases v rule: maybeStringSchema.cases) (auto split: if_splits)

lemma parse_rawArticle:
  "zoteroItemSchema stringToNumber (Some rawArticle) = Inr articleItem"
  by (simp add: zoteroItemSchema_def rawArticle_def articleItem_def bindE_def
        creatorSchema_def zCreatorType_def issuedSchema_def removeAbstractPrefix_def
        isSpace_def nth_opt_def)

lemma parse_rawPreprint:
  "zoteroItemSchema stringToNumber (Some rawPreprint) = Inr preprintItem"
  by (simp add: zoteroItemSchema_def rawPreprint_def preprintItem_def bindE_def
        creatorSchema_def zCreatorType_def issuedSchema_def removeAbstractPrefix_def
        isSpace_def nth_opt_def)

text \<open>
  C9. Whenever the schema accepts a raw record, every optional textual field of the item
  is the member of \<open>data\<close> of that name when this is a non-empty string, and absent
  otherwise: an empty string is normalised to an absent value, and no optional textual
  field of a validated item is the empty string.
\<close>

theorem optional_text_fields_normalized:
  assumes "zoteroItemSchema stringToNumber (Some raw) = Inr x"
  shows "\<forall>(name, field) \<in> set optionalTextFields.
           field x \<noteq> Some []
         \<and> (rawDataMember raw name = Some (JStr []) \<longrightarrow> field x = None)
         \<and> field x = (case rawDataMember raw name of
                           Some (JStr s) \<Rightarrow> if s = [] then None else Some s
                         | _ \<Rightarrow> None)"
proof (intro ballI, clarify)
  fix name field
  assume "(name, field) \<in> set optionalTextFields"
  from optional_field_normalized [OF optional_field_parsed [OF assms this]]
  show "field x \<noteq> Some []
         \<and> (rawDataMember raw name = Some (JStr []) \<longrightarrow> field x = None)
         \<and> field x = (case rawDataMember raw name of
                           Some (JStr s) \<Rightarrow> if s = [] then None else Some s
                         | _ \<Rightarrow> None)" .
qed

theorem optional_text_fields_normalized_witness:
  "zoteroItemSchema (\<lambda>s. NaN) (Some rawArticle) = Inr articleItem
   \<and> rawDataMember rawArticle ''issue'' = Some (JStr [])
   \<and> issue articleItem = None
   \<and> volume articleItem = Some ''600''"
proof -
  have p: "zoteroItemSchema (\<lambda>s. NaN) (Some rawArticle) = Inr articleItem"
    by (rule parse_rawArticle)
  have i: "(''issue'', issue) \<in> set optionalTextFields"
    and v: "(''volume'', volume) \<in> set optionalTextFields"
    by (simp_all add: optionalTextFields_def)
  have r: "rawDataMember rawArticle ''issue'' = Some (JStr [])"
    "rawDataMember rawArticle ''volume'' = Some (JStr ''600'')"
    by (simp_all add: rawDataMember_def rawArticle_def)
  from optional_text_fields_normalized [OF p] i v
  have "issue articleItem
          = (case rawDataMember rawArticle ''issue'' of
               Some (JStr s) \<Rightarrow> if s = [] then None else Some s | _ \<Rightarrow> None)"
    "volume articleItem
          = (case rawDataMember rawArticle ''volume'' of
               Some (JStr s) \<Rightarrow> if s = [] then None else Some s | _ \<Rightarrow> None)"
    by blast+
  with p r show ?thesis
    by simp
qed


section \<open>Properties of the cross-reference resolver\<close>

lemma getPubMedIdsLoop_total:
  assumes "0 < batchSize"
  shows "getPubMedIdsLoop ncbi dois batchSize i records requested
           = Some (processBatches ncbi batchSize i (chunks batchSize (drop i dois)) records requested)"
  using assms
proof (induction batchSize "drop i dois" arbitrary: i records requested rule: chunks.induct)
  case (1 n)
  show ?case
  proof (cases "i < length dois")
    case False
    then show ?thesis
      by (subst getPubMedIdsLoop.simps) (simp add: chunks.simps)
  next
    case True
    with 1 have ne: "\<not> (n = 0 \<or> drop i dois = [])"
      by simp
    have dd: "drop n (drop i dois) = drop (i + n) dois"
      by (simp add: add.commute)
    note ih = "1.hyps" [OF ne dd "1.prems"]
    have ch: "chunks n (drop i dois) = take n (drop i dois) # chunks n (drop (i + n) dois)"
      using ne by (subst chunks.simps) (simp add: add.commute)
    show ?thesis
      by (subst getPubMedIdsLoop.simps) (simp add: True ch ih split: sum.splits)
  qed
qed


lemma record_ok:
  "wellFormedRecord r \<Longrightarrow>
     \<exists>d p. ncbiRecordSchema (Some r) = Inr (d, p)
          \<and> resolvedPair r = (if truthy p then Some (d, the p) else None)"
  by (auto simp: wellFormedRecord_def ncbiRecordSchema_def resolvedPair_def bindE_def truthy_def
        split: json.splits option.splits)

lemma record_bad:
  "\<not> wellFormedRecord r \<Longrightarrow> ncbiRecordSchema (Some r) = Inl ZodError"
  by (auto simp: wellFormedRecord_def ncbiRecordSchema_def bindE_def
        split: json.splits option.splits)

lemma storeRecords_spec:
  "storeRecords recs m
     = m ++ lastReported (List.map_filter (\<lambda>(d, p). if truthy p then Some (d, the p) else None) recs)"
proof (induction recs arbitrary: m)
  case Nil
  then show ?case by (simp add: lastReported_def map_filter_simps)
next
  case (Cons r rest)
  obtain d p where r: "r = (d, p)" by (cases r)
  let ?M = "lastReported (List.map_filter (\<lambda>(d, p). if truthy p then Some (d, the p) else None) rest)"
  show ?case
  proof (cases "truthy p")
    case False
    then show ?thesis
      by (simp add: r Cons.IH map_filter_simps)
  next
    case True
    have u: "m(d \<mapsto> the p) = m ++ [d \<mapsto> the p]"
      by simp
    have "storeRecords (r # rest) m = storeRecords rest (m(d \<mapsto> the p))"
      using True by (simp add: r)
    also have "\<dots> = m(d \<mapsto> the p) ++ ?M"
      by (rule Cons.IH)
    also have "\<dots> = (m ++ [d \<mapsto> the p]) ++ ?M"
      by (simp only: u)
    also have "\<dots> = m ++ ([d \<mapsto> the p] ++ ?M)"
      by (simp only: map_add_assoc)
    also have "[d \<mapsto> the p] ++ ?M
        = lastReported (List.map_filter (\<lambda>(d, p). if truthy p then Some (d, the p) else None) (r # rest))"
      using True by (simp add: r lastReported_def map_filter_simps)
    finally show ?thesis .
  qed
qed

lemma records_ok:
  "list_all wellFormedRecord rs \<Longrightarrow>
     \<exists>recs. mapE (\<lambda>x. ncbiRecordSchema (Some x)) rs = Inr recs
          \<and> List.map_filter (\<lambda>(d, p). if truthy p then Some (d, the p) else None) recs
              = List.map_filter resolvedPair rs"
proof (induction rs)
  case Nil
  then show ?case by (simp add: map_filter_simps)
next
  case (Cons r rs)
  then obtain recs where r: "mapE (\<lambda>x. ncbiRecordSchema (Some x)) rs = Inr recs"
    "List.map_filter (\<lambda>(d, p). if truthy p then Some (d, the p) else None) recs
              = List.map_filter resolvedPair rs"
    by auto
  from Cons.prems record_ok [of r] obtain d p where
    "ncbiRecordSchema (Some r) = Inr (d, p)"
    "resolvedPair r = (if truthy p then Some (d, the p) else None)"
    by auto
  with r show ?case
    by (simp add: bindE_def map_filter_simps)
qed

lemma records_bad:
  "\<not> list_all wellFormedRecord rs \<Longrightarrow> mapE (\<lambda>x. ncbiRecordSchema (Some x)) rs = Inl ZodError"
proof (induction rs)
  case Nil
  then show ?case by simp
next
  case (Cons r rs)
  show ?case
  proof (cases "wellFormedRecord r")
    case False
    then show ?thesis by (simp add: record_bad bindE_def)
  next
    case True
    with Cons have "mapE (\<lambda>x. ncbiRecordSchema (Some x)) rs = Inl ZodError" by simp
    with record_ok [OF True] show ?thesis by (auto simp: bindE_def)
  qed
qed

lemma response_ok:
  assumes "wellFormedResponse body"
  shows "\<exists>recs. ncbiIdConverterResponseSchema (Some body) = Inr recs
          \<and> storeRecords recs m = m ++ lastReported (resolvedPairs body)"
proof -
  from assms obtain members rs where b: "body = JObj members"
    "map_of members ''records'' = Some (JArr rs)" "list_all wellFormedRecord rs"
    by (auto simp: wellFormedResponse_def recordsOf_def split: json.splits option.splits)
  from records_ok [OF b(3)] obtain recs where
    "mapE (\<lambda>x. ncbiRecordSchema (Some x)) rs = Inr recs"
    "List.map_filter (\<lambda>(d, p). if truthy p then Some (d, the p) else None) recs
              = List.map_filter resolvedPair rs"
    by blast
  with b show ?thesis
    by (simp add: ncbiIdConverterResponseSchema_def bindE_def storeRecords_spec resolvedPairs_def
          recordsOf_def)
qed

lemma response_bad:
  assumes "\<not> wellFormedResponse body"
  shows "ncbiIdConverterResponseSchema (Some body) = Inl ZodError"
proof (cases "recordsOf body")
  case None
  then show ?thesis
    by (auto simp: ncbiIdConverterResponseSchema_def recordsOf_def bindE_def
          split: json.splits option.splits)
next
  case (Some rs)
  with assms have "\<not> list_all wellFormedRecord rs"
    by (simp add: wellFormedResponse_def)
  from records_bad [OF this] Some show ?thesis
    by (auto simp: ncbiIdConverterResponseSchema_def recordsOf_def bindE_def
          split: json.splits option.splits)
qed

lemma answers_Cons:
  "answers ncbi i (batch # rest) = ncbi i batch # answers ncbi (i + 100) rest"
proof -
  have "[0..<Suc (length rest)] = 0 # [Suc 0..<Suc (length rest)]"
    by (rule upt_conv_Cons) simp
  also have "[Suc 0..<Suc (length rest)] = map Suc [0..<length rest]"
    by (simp only: map_Suc_upt)
  finally have "[0..<length (batch # rest)] = 0 # map Suc [0..<length rest]"
    by simp
  then show ?thesis
    unfolding answers_def by (simp add: o_def add.assoc del: upt_Suc)
qed

lemma answers_Nil: "answers ncbi i [] = []"
  by (simp add: answers_def)

lemma lastReported_append:
  "lastReported (xs @ ys) = lastReported xs ++ lastReported ys"
  by (simp add: lastReported_def)

lemma processBatches_ok:
  "list_all answerOk (answers ncbi i batches) \<Longrightarrow>
   processBatches ncbi 100 i batches m requested
     = (Inr (m ++ lastReported (concat (map answerPairs (answers ncbi i batches)))),
        requested @ batches)"
proof (induction batches arbitrary: i m requested)
  case Nil
  then show ?case by (simp add: answers_Nil lastReported_def)
next
  case (Cons batch rest)
  from Cons.prems have ok: "answerOk (ncbi i batch)"
    and rest: "list_all answerOk (answers ncbi (i + 100) rest)"
    by (simp_all add: answers_Cons)
  from ok obtain body where b: "ncbi i batch = Inr body" "wellFormedResponse body"
    by (auto simp: answerOk_def split: sum.splits)
  from response_ok [OF b(2), of m] obtain recs where
    r: "ncbiIdConverterResponseSchema (Some body) = Inr recs"
      "storeRecords recs m = m ++ lastReported (resolvedPairs body)"
    by blast
  show ?case
    by (simp add: b r Cons.IH [OF rest] answers_Cons answerPairs_def lastReported_append)
qed

lemma processBatches_error:
  "k < length batches \<Longrightarrow> list_all answerOk (take k (answers ncbi i batches))
   \<Longrightarrow> \<not> answerOk (answers ncbi i batches ! k)
   \<Longrightarrow> processBatches ncbi 100 i batches m requested
     = (Inl (answerError (answers ncbi i batches ! k)), requested @ take (Suc k) batches)"
proof (induction batches arbitrary: i m requested k)
  case Nil
  then show ?case by simp
next
  case (Cons batch rest)
  show ?case
  proof (cases k)
    case 0
    with Cons.prems(3) have bad: "\<not> answerOk (ncbi i batch)"
      by (simp add: answers_Cons)
    show ?thesis
    proof (cases "ncbi i batch")
      case (Inl e)
      with 0 show ?thesis by (simp add: answers_Cons answerError_def)
    next
      case (Inr body)
      with bad have "ncbiIdConverterResponseSchema (Some body) = Inl ZodError"
        by (simp add: answerOk_def response_bad)
      with Inr 0 show ?thesis by (simp add: answers_Cons answerError_def)
    qed
  next
    case (Suc k')
    with Cons.prems have k': "k' < length rest"
      and ok: "answerOk (ncbi i batch)"
      and oks: "list_all answerOk (take k' (answers ncbi (i + 100) rest))"
      and bad: "\<not> answerOk (answers ncbi (i + 100) rest ! k')"
      by (simp_all add: answers_Cons)
    from ok obtain body where b: "ncbi i batch = Inr body" "wellFormedResponse body"
      by (auto simp: answerOk_def split: sum.splits)
    from response_ok [OF b(2), of m] obtain recs where
      r: "ncbiIdConverterResponseSchema (Some body) = Inr recs"
      by blast
    show ?thesis
      by (simp add: b r Suc Cons.IH [OF k' oks bad] answers_Cons)
  qed
qed

lemma concat_chunks: "0 < n \<Longrightarrow> concat (chunks n xs) = xs"
  by (induction n xs rule: chunks.induct) (subst chunks.simps, simp)

lemma chunks_sizes:
  "batch \<in> set (chunks n xs) \<Longrightarrow> 0 < length batch \<and> length batch \<le> n"
proof (induction n xs rule: chunks.induct)
  case (1 n xs)
  show ?case
  proof (cases "n = 0 \<or> xs = []")
    case True
    with "1.prems" show ?thesis by (simp add: chunks.simps)
  next
    case False
    with "1.prems" have "batch = take n xs \<or> batch \<in> set (chunks n (drop n xs))"
      by (subst (asm) chunks.simps) simp
    with False "1.IH" show ?thesis by auto
  qed
qed

lemma chunks_full:
  "batch \<in> set (butlast (chunks n xs)) \<Longrightarrow> length batch = n"
proof (induction n xs rule: chunks.induct)
  case (1 n xs)
  show ?case
  proof (cases "n = 0 \<or> xs = []")
    case True
    with "1.prems" show ?thesis by (simp add: chunks.simps)
  next
    case False
    then have ch: "chunks n xs = take n xs # chunks n (drop n xs)"
      by (subst chunks.simps) simp
    show ?thesis
    proof (cases "chunks n (drop n xs) = []")
      case True
      with ch "1.prems" show ?thesis by simp
    next
      case ne: False
      then have "drop n xs \<noteq> []" by (auto simp: chunks.simps)
      then have "length (take n xs) = n" by simp
      with ch ne "1.prems" "1.IH" [OF False] show ?thesis by auto
    qed
  qed
qed

lemma resolvedPair_nonempty:
  "resolvedPair r = Some (d, p) \<Longrightarrow> p \<noteq> []"
  by (auto simp: resolvedPair_def split: json.splits option.splits if_splits)

lemma answerPairs_nonempty:
  "(d, p) \<in> set (answerPairs a) \<Longrightarrow> p \<noteq> []"
  by (auto simp: answerPairs_def resolvedPairs_def List.map_filter_def
        dest: resolvedPair_nonempty split: sum.splits option.splits)

lemma lastReported_dom:
  "dom (lastReported pairs) = fst ` set pairs"
  by (simp add: lastReported_def dom_map_of_conv_image_fst)

lemma lastReported_lookup:
  "lastReported pairs d = Some p \<Longrightarrow> (d, p) \<in> set pairs"
  unfolding lastReported_def by (drule map_of_SomeD) simp

lemma first_failure:
  "\<not> list_all P xs \<Longrightarrow> \<exists>k<length xs. list_all P (take k xs) \<and> \<not> P (xs ! k)"
proof (induction xs)
  case Nil
  then show ?case by simp
next
  case (Cons x xs)
  show ?case
  proof (cases "P x")
    case False
    then have "0 < length (x # xs) \<and> list_all P (take 0 (x # xs)) \<and> \<not> P ((x # xs) ! 0)"
      by simp
    then show ?thesis by blast
  next
    case True
    with Cons obtain k where "k < length xs" "list_all P (take k xs)" "\<not> P (xs ! k)"
      by auto
    with True have "Suc k < length (x # xs) \<and> list_all P (take (Suc k) (x # xs))
        \<and> \<not> P ((x # xs) ! Suc k)"
      by simp
    then show ?thesis by blast
  qed
qed

lemma answers_length: "length (answers ncbi i batches) = length batches"
  by (simp add: answers_def)

text \<open>
  C8. \<^verbatim>\<open>getPubMedIds\<close> with the batch size 100 always returns, and its requests are
  the batches of the DOI list in order: consecutive slices of 100 DOIs, the last one
  possibly shorter. When every answer of the service is a well-formed response, all
  batches are requested and a map is returned: it gives each DOI the last identifier
  reported for it, a DOI has an entry exactly when some response reports it with a
  non-empty PubMed identifier, and every value is such an identifier, never empty. When
  answer \<open>k\<close> is the first that is an error or no well-formed response, the run ends
  with that error after \<open>k + 1\<close> requests; so a map is returned only if every answer is
  well formed.
\<close>

theorem getPubMedIds_resolved_only:
  "(\<exists>r. getPubMedIds ncbi dois 100 = Some r)
   \<and> (list_all answerOk (answers ncbi 0 (chunks 100 dois)) \<longrightarrow>
        (\<exists>m. getPubMedIds ncbi dois 100 = Some (Inr m, chunks 100 dois)
           \<and> m = lastReported (reportedPairs ncbi dois)
           \<and> (\<forall>d. d \<in> dom m \<longleftrightarrow> (\<exists>p. (d, p) \<in> set (reportedPairs ncbi dois)))
           \<and> (\<forall>d p. m d = Some p \<longrightarrow> p \<noteq> [] \<and> (d, p) \<in> set (reportedPairs ncbi dois))))
   \<and> (\<forall>k<length (chunks 100 dois).
         list_all answerOk (take k (answers ncbi 0 (chunks 100 dois)))
           \<and> \<not> answerOk (answers ncbi 0 (chunks 100 dois) ! k) \<longrightarrow>
         getPubMedIds ncbi dois 100
           = Some (Inl (answerError (answers ncbi 0 (chunks 100 dois) ! k)),
                   take (Suc k) (chunks 100 dois)))
   \<and> (\<forall>m requested. getPubMedIds ncbi dois 100 = Some (Inr m, requested) \<longrightarrow>
         list_all answerOk (answers ncbi 0 (chunks 100 dois)))
   \<and> concat (chunks 100 dois) = dois
   \<and> (\<forall>batch \<in> set (chunks 100 dois). 0 < length batch \<and> length batch \<le> 100)
   \<and> (\<forall>batch \<in> set (butlast (chunks 100 dois)). length batch = 100)"
proof -
  let ?A = "answers ncbi 0 (chunks 100 dois)"
  have run: "getPubMedIds ncbi dois 100
               = Some (processBatches ncbi 100 0 (chunks 100 dois) Map.empty [])"
    using getPubMedIdsLoop_total [of 100 ncbi dois 0] by (simp add: getPubMedIds_def)
  have a: "\<exists>r. getPubMedIds ncbi dois 100 = Some r"
    using run by simp
  have bb: "\<exists>m. getPubMedIds ncbi dois 100 = Some (Inr m, chunks 100 dois)
           \<and> m = lastReported (reportedPairs ncbi dois)
           \<and> (\<forall>d. d \<in> dom m \<longleftrightarrow> (\<exists>p. (d, p) \<in> set (reportedPairs ncbi dois)))
           \<and> (\<forall>d p. m d = Some p \<longrightarrow> p \<noteq> [] \<and> (d, p) \<in> set (reportedPairs ncbi dois))"
    if ok: "list_all answerOk ?A"
  proof -
    have r: "getPubMedIds ncbi dois 100
               = Some (Inr (lastReported (reportedPairs ncbi dois)), chunks 100 dois)"
      unfolding run processBatches_ok [OF ok] reportedPairs_def by simp
    have ne: "p \<noteq> []" if "(d, p) \<in> set (reportedPairs ncbi dois)" for d p
      using that unfolding reportedPairs_def by (auto dest: answerPairs_nonempty)
    have d: "d \<in> dom (lastReported (reportedPairs ncbi dois))
               \<longleftrightarrow> (\<exists>p. (d, p) \<in> set (reportedPairs ncbi dois))" for d
      unfolding lastReported_dom by force
    from r ne d lastReported_lookup [of "reportedPairs ncbi dois"] show ?thesis
      by blast
  qed
  have c: "getPubMedIds ncbi dois 100
           = Some (Inl (answerError (?A ! k)), take (Suc k) (chunks 100 dois))"
    if "k < length (chunks 100 dois)" "list_all answerOk (take k ?A)" "\<not> answerOk (?A ! k)" for k
    unfolding run processBatches_error [OF that] by simp
  have e: "list_all answerOk ?A"
    if ret: "getPubMedIds ncbi dois 100 = Some (Inr m, requested)" for m requested
  proof (rule ccontr)
    assume "\<not> list_all answerOk ?A"
    from first_failure [OF this] obtain k where "k < length (chunks 100 dois)"
      "list_all answerOk (take k ?A)" "\<not> answerOk (?A ! k)"
      by (auto simp: answers_length)
    from c [OF this] ret show False
      by simp
  qed
  have d: "concat (chunks 100 dois) = dois"
    by (simp add: concat_chunks)
  from a bb c e d chunks_sizes [of _ 100 dois] chunks_full [of _ 100 dois]
  show ?thesis
    by blast
qed


lemma exampleNcbi_records:
  "ncbiIdConverterResponseSchema
     (Some (JObj [(''status'', JStr ''ok''),
                (''records'', JArr [JObj [(''doi'', JStr ''10.1/a''), (''pmid'', JStr ''123'')],
                                    JObj [(''doi'', JStr ''10.2/b'')],
                                    JObj [(''doi'', JStr ''10.3/c''), (''pmid'', JStr [])]])]))
     = Inr [(''10.1/a'', Some ''123''), (''10.2/b'', None), (''10.3/c'', Some [])]"
  by (simp add: ncbiIdConverterResponseSchema_def ncbiRecordSchema_def bindE_def)

lemma chunks_example:
  "chunks 100 exampleDois = [map doiOf [0..<100], map doiOf [100..<200], map doiOf [200..<250]]"
proof -
  have 1: "chunks 100 (map doiOf [0..<250]) = map doiOf [0..<100] # chunks 100 (map doiOf [100..<250])"
    by (subst chunks.simps) (simp add: take_map drop_map del: upt_rec_numeral)
  have 2: "chunks 100 (map doiOf [100..<250]) = map doiOf [100..<200] # chunks 100 (map doiOf [200..<250])"
    by (subst chunks.simps) (simp add: take_map drop_map del: upt_rec_numeral)
  have 3: "chunks 100 (map doiOf [200..<250]) = map doiOf [200..<250] # chunks 100 (map doiOf [])"
    by (subst chunks.simps) (simp add: take_map drop_map del: upt_rec_numeral)
  have 4: "chunks 100 (map doiOf []) = []"
    by (subst chunks.simps) simp
  show ?thesis
    unfolding exampleDois_def 1 2 3 4 ..
qed

lemma bulk_ok: "answerOk (bulkNcbi i batch)"
  by (auto simp: bulkNcbi_def answerOk_def wellFormedResponse_def recordsOf_def list_all_iff
        wellFormedRecord_def bulkRecord_def split: option.splits)

lemma bulk_resolved:
  "resolvedPair (bulkRecord d) = tablePair d"
  by (simp add: resolvedPair_def bulkRecord_def tablePair_def split: option.splits)

lemma bulk_pairs:
  "answerPairs (bulkNcbi i batch) = List.map_filter tablePair batch"
  by (simp add: answerPairs_def bulkNcbi_def resolvedPairs_def recordsOf_def
        List.map_filter_def bulk_resolved o_def filter_map)

lemma bulk_reported:
  "concat (map answerPairs (answers bulkNcbi i batches)) = List.map_filter tablePair (concat batches)"
  by (induction batches arbitrary: i)
     (simp_all add: answers_Nil answers_Cons bulk_pairs List.map_filter_def)

lemma tablePair_cases:
  "tablePair d = Some x \<longleftrightarrow> (d = ''10.1/7'' \<and> x = (''10.1/7'', ''111''))
      \<or> (d = ''10.1/203'' \<and> x = (''10.1/203'', ''222''))"
  by (auto simp: tablePair_def pmidTable_def)

lemma exampleDois_member:
  "''10.1/7'' \<in> set exampleDois" "''10.1/203'' \<in> set exampleDois"
proof -
  have "doiOf 7 \<in> set exampleDois" "doiOf 203 \<in> set exampleDois"
    unfolding exampleDois_def by simp_all
  then show "''10.1/7'' \<in> set exampleDois" "''10.1/203'' \<in> set exampleDois"
    by (simp_all add: doiOf_def digitChar_def)
qed

lemma map_filter_set:
  "set (List.map_filter f xs) = {y. \<exists>x. x \<in> set xs \<and> f x = Some y}"
  by (induction xs) (auto simp: map_filter_simps split: option.splits)

lemma exampleDois_reported:
  "set (reportedPairs bulkNcbi exampleDois) = {(''10.1/7'', ''111''), (''10.1/203'', ''222'')}"
proof -
  have "reportedPairs bulkNcbi exampleDois = List.map_filter tablePair exampleDois"
    unfolding reportedPairs_def bulk_reported by (simp add: concat_chunks)
  then have "set (reportedPairs bulkNcbi exampleDois)
      = {x. \<exists>d. d \<in> set exampleDois \<and> tablePair d = Some x}"
    by (simp add: map_filter_set)
  also have "\<dots> = {(''10.1/7'', ''111''), (''10.1/203'', ''222'')}"
    unfolding tablePair_cases using exampleDois_member by blast
  finally show ?thesis .
qed


lemma answers_three:
  "answers ncbi 0 [b0, b1, b2] = [ncbi 0 b0, ncbi 100 b1, ncbi 200 b2]"
  by (simp add: answers_Cons answers_Nil)

lemma bulkNcbi_answers: "list_all answerOk (answers bulkNcbi 0 (chunks 100 exampleDois))"
  unfolding chunks_example answers_three by (simp add: bulk_ok)

lemma answerOk_Inl: "\<not> answerOk (Inl e)"
  by (simp add: answerOk_def)

lemma failingNcbi_answers: "list_all answerOk (take 1 (answers failingNcbi 0 (chunks 100 exampleDois)))
      \<and> \<not> answerOk (answers failingNcbi 0 (chunks 100 exampleDois) ! 1)
      \<and> answerError (answers failingNcbi 0 (chunks 100 exampleDois) ! 1) = FetchError"
  unfolding chunks_example answers_three
  by (simp add: failingNcbi_def bulk_ok answerOk_Inl answerError_def)

lemma exampleDois_map:
  assumes m2: "\<forall>d. d \<in> dom m \<longleftrightarrow> (\<exists>p. (d, p) \<in> set (reportedPairs bulkNcbi exampleDois))"
    and m3: "\<forall>d p. m d = Some p \<longrightarrow> p \<noteq> [] \<and> (d, p) \<in> set (reportedPairs bulkNcbi exampleDois)"
  shows "m = [''10.1/7'' \<mapsto> ''111'', ''10.1/203'' \<mapsto> ''222'']"
proof (rule ext)
  fix d
  let ?R = "{(''10.1/7'', ''111''), (''10.1/203'', ''222'')} :: (string \<times> string) set"
  have in7: "(''10.1/7'', ''111'') \<in> ?R" and in203: "(''10.1/203'', ''222'') \<in> ?R"
    by simp_all
  have R: "(d, p) \<in> ?R \<Longrightarrow> [''10.1/7'' \<mapsto> ''111'', ''10.1/203'' \<mapsto> ''222''] d = Some p" for p
    by auto
  show "m d = [''10.1/7'' \<mapsto> ''111'', ''10.1/203'' \<mapsto> ''222''] d"
  proof (cases "m d")
    case None
    then have nd: "d \<notin> dom m" by (simp add: domIff)
    have "d \<noteq> ''10.1/7''"
    proof
      assume "d = ''10.1/7''"
      with in7 m2 have "d \<in> dom m" unfolding exampleDois_reported by blast
      with nd show False ..
    qed
    moreover have "d \<noteq> ''10.1/203''"
    proof
      assume "d = ''10.1/203''"
      with in203 m2 have "d \<in> dom m" unfolding exampleDois_reported by blast
      with nd show False ..
    qed
    ultimately show ?thesis
      using None by simp
  next
    case (Some p)
    with m3 have "(d, p) \<in> ?R" unfolding exampleDois_reported by blast
    from R [OF this] Some show ?thesis by simp
  qed
qed


theorem getPubMedIds_resolved_only_witness:
  "getPubMedIds bulkNcbi exampleDois 100
     = Some (Inr [''10.1/7'' \<mapsto> ''111'', ''10.1/203'' \<mapsto> ''222''],
             [map doiOf [0..<100], map doiOf [100..<200], map doiOf [200..<250]])
   \<and> getPubMedIds failingNcbi exampleDois 100
     = Some (Inl FetchError, [map doiOf [0..<100], map doiOf [100..<200]])"
proof -
  note t = getPubMedIds_resolved_only [of bulkNcbi exampleDois]
  from t have "list_all answerOk (answers bulkNcbi 0 (chunks 100 exampleDois)) \<longrightarrow>
        (\<exists>m. getPubMedIds bulkNcbi exampleDois 100 = Some (Inr m, chunks 100 exampleDois)
           \<and> m = lastReported (reportedPairs bulkNcbi exampleDois)
           \<and> (\<forall>d. d \<in> dom m \<longleftrightarrow> (\<exists>p. (d, p) \<in> set (reportedPairs bulkNcbi exampleDois)))
           \<and> (\<forall>d p. m d = Some p \<longrightarrow> p \<noteq> [] \<and> (d, p) \<in> set (reportedPairs bulkNcbi exampleDois)))"
    by (elim conjE)
  from this [rule_format, OF bulkNcbi_answers] obtain m where
    m: "getPubMedIds bulkNcbi exampleDois 100 = Some (Inr m, chunks 100 exampleDois)"
      "\<forall>d. d \<in> dom m \<longleftrightarrow> (\<exists>p. (d, p) \<in> set (reportedPairs bulkNcbi exampleDois))"
      "\<forall>d p. m d = Some p \<longrightarrow> p \<noteq> [] \<and> (d, p) \<in> set (reportedPairs bulkNcbi exampleDois)"
    by (elim exE conjE)
  have first: "getPubMedIds bulkNcbi exampleDois 100
     = Some (Inr [''10.1/7'' \<mapsto> ''111'', ''10.1/203'' \<mapsto> ''222''],
             [map doiOf [0..<100], map doiOf [100..<200], map doiOf [200..<250]])"
    unfolding m(1) exampleDois_map [OF m(2,3)] chunks_example ..
  have l: "(1 :: nat) < length (chunks 100 exampleDois)"
    unfolding chunks_example by simp
  note t' = getPubMedIds_resolved_only [of failingNcbi exampleDois]
  from t' have "\<forall>k<length (chunks 100 exampleDois).
         list_all answerOk (take k (answers failingNcbi 0 (chunks 100 exampleDois)))
           \<and> \<not> answerOk (answers failingNcbi 0 (chunks 100 exampleDois) ! k) \<longrightarrow>
         getPubMedIds failingNcbi exampleDois 100
           = Some (Inl (answerError (answers failingNcbi 0 (chunks 100 exampleDois) ! k)),
                   take (Suc k) (chunks 100 exampleDois))"
    by (elim conjE)
  from this [rule_format, OF l] failingNcbi_answers
  have "getPubMedIds failingNcbi exampleDois 100
     = Some (Inl FetchError, take (Suc 1) (chunks 100 exampleDois))"
    by simp
  then have second: "getPubMedIds failingNcbi exampleDois 100
     = Some (Inl FetchError, [map doiOf [0..<100], map doiOf [100..<200]])"
    unfolding chunks_example by simp
  from first second show ?thesis
    by (rule conjI)
qed


section \<open>Properties of the collection fetcher\<close>

lemma isNotNote_spec:
  "isNotNote v = (if hasData v then Inr (\<not> isNote v) else Inl TypeError)"
  by (cases v) (auto simp: hasData_def isNote_def split: option.splits json.splits)

lemma filterE_ok:
  "list_all hasData raw \<Longrightarrow> filterE isNotNote raw = Inr (filter (\<lambda>v. \<not> isNote v) raw)"
  by (induction raw) (simp_all add: isNotNote_spec bindE_def)

lemma filterE_bad:
  "\<not> list_all hasData raw \<Longrightarrow> \<exists>e. filterE isNotNote raw = Inl e"
proof (induction raw)
  case Nil
  then show ?case by simp
next
  case (Cons v raw)
  then show ?case
    by (cases "hasData v"; cases "filterE isNotNote raw") (auto simp: isNotNote_spec bindE_def)
qed

lemma mapE_ok:
  "those (map (accepted stn) xs) = Some ys
   \<Longrightarrow> mapE (\<lambda>x. zoteroItemSchema stn (Some x)) xs = Inr ys"
proof (induction xs arbitrary: ys)
  case Nil
  then show ?case by simp
next
  case (Cons x xs)
  then show ?case
    by (auto simp: accepted_def bindE_def split: option.splits sum.splits)
qed

lemma mapE_bad:
  "those (map (accepted stn) xs) = None
   \<Longrightarrow> \<exists>e. mapE (\<lambda>x. zoteroItemSchema stn (Some x)) xs = Inl e"
proof (induction xs)
  case Nil
  then show ?case by simp
next
  case (Cons x xs)
  then show ?case
    by (cases "zoteroItemSchema stn (Some x)"; cases "those (map (accepted stn) xs)")
       (auto simp: accepted_def bindE_def dest: mapE_ok split: option.splits sum.splits)
qed

lemma parsePage_ok:
  "surviving stn raw = Some items \<Longrightarrow> parsePage stn (JArr raw) = Inr (length raw, items)"
  by (auto simp: surviving_def parsePage_def filterE_ok bindE_def dest: mapE_ok split: if_splits)

lemma parsePage_bad:
  assumes "surviving stn raw = None"
  shows "\<exists>e. parsePage stn (JArr raw) = Inl e"
proof (cases "list_all hasData raw")
  case False
  from filterE_bad [OF this] show ?thesis
    by (auto simp: parsePage_def bindE_def)
next
  case True
  with assms have "those (map (accepted stn) (filter (\<lambda>v. \<not> isNote v) raw)) = None"
    by (simp add: surviving_def)
  from mapE_bad [OF this] True show ?thesis
    by (auto simp: parsePage_def filterE_ok bindE_def)
qed

lemma parsePage_surviving:
  assumes "parsePage stn (JArr raw) = Inr (n, items)"
  shows "surviving stn raw = Some items \<and> n = length raw"
proof (cases "surviving stn raw")
  case None
  from parsePage_bad [OF this] assms show ?thesis by auto
next
  case (Some its)
  from parsePage_ok [OF this] assms show ?thesis using Some by simp
qed

lemma page_valid:
  assumes "pageItems stn api j = Some items"
  shows "\<exists>raw. api 100 (100 * j) = Inr (JArr raw)
           \<and> parsePage stn (JArr raw) = Inr (length raw, items) \<and> rawCount api j = length raw"
  using assms
  by (auto simp: pageItems_def rawPage_def rawCount_def dest: parsePage_ok
        split: sum.splits json.splits option.splits)

lemma page_invalid:
  assumes "pageItems stn api j = None"
  shows "(\<exists>e. api 100 (100 * j) = Inl e)
       \<or> (\<exists>body e. api 100 (100 * j) = Inr body \<and> parsePage stn body = Inl e)"
proof (cases "api 100 (100 * j)")
  case (Inl e)
  then show ?thesis by simp
next
  case (Inr body)
  show ?thesis
  proof (cases "\<exists>raw. body = JArr raw")
    case False
    then have "parsePage stn body = Inl TypeError"
      by (cases body) (simp_all add: parsePage_def)
    with Inr show ?thesis by simp
  next
    case True
    then obtain raw where raw: "body = JArr raw" by blast
    with Inr assms have "surviving stn raw = None"
      by (simp add: pageItems_def rawPage_def)
    from parsePage_bad [OF this] Inr raw show ?thesis by simp
  qed
qed

lemma fetchLoop_step:
  assumes "pageItems stn api i = Some its" and "100 \<le> rawCount api i"
  shows "fetchLoop stn api 100 (100 * i) items requested
           = fetchLoop stn api 100 (100 * Suc i) (items @ its) (requested @ [100 * i])"
proof -
  from page_valid [OF assms(1)] assms(2) obtain raw where
    "api 100 (100 * i) = Inr (JArr raw)" "parsePage stn (JArr raw) = Inr (length raw, its)"
    "\<not> length raw < 100"
    by auto
  then show ?thesis
    by (subst fetchLoop.simps) (simp add: add.commute)
qed

lemma fetchLoop_stop:
  assumes "pageItems stn api i = Some its" and "rawCount api i < 100"
  shows "fetchLoop stn api 100 (100 * i) items requested
           = Some (Inr (items @ its), requested @ [100 * i])"
proof -
  from page_valid [OF assms(1)] assms(2) obtain raw where
    "api 100 (100 * i) = Inr (JArr raw)" "parsePage stn (JArr raw) = Inr (length raw, its)"
    "length raw < 100"
    by auto
  then show ?thesis
    by (subst fetchLoop.simps) simp
qed

lemma fetchLoop_error:
  assumes "pageItems stn api i = None"
  shows "\<exists>e. fetchLoop stn api 100 (100 * i) items requested = Some (Inl e, requested @ [100 * i])"
  using page_invalid [OF assms]
  by (subst fetchLoop.simps) auto

lemma fetchLoop_advance:
  assumes "\<And>j. i \<le> j \<Longrightarrow> j < k \<Longrightarrow> pageItems stn api j \<noteq> None \<and> 100 \<le> rawCount api j"
    and "i \<le> k"
  shows "fetchLoop stn api 100 (100 * i) items requested
           = fetchLoop stn api 100 (100 * k) (items @ concat (map (itemsOf stn api) [i..<k]))
               (requested @ map (\<lambda>j. 100 * j) [i..<k])"
  using assms
proof (induction k)
  case 0
  then show ?case by simp
next
  case (Suc k)
  show ?case
  proof (cases "i = Suc k")
    case True
    then show ?thesis by simp
  next
    case False
    with Suc.prems(2) have le: "i \<le> k" by simp
    have ih: "fetchLoop stn api 100 (100 * i) items requested
           = fetchLoop stn api 100 (100 * k) (items @ concat (map (itemsOf stn api) [i..<k]))
               (requested @ map (\<lambda>j. 100 * j) [i..<k])"
      using Suc.IH Suc.prems(1) le by simp
    from Suc.prems(1) [of k] le obtain its where
      k: "pageItems stn api k = Some its" "100 \<le> rawCount api k"
      by auto
    then have its: "itemsOf stn api k = its"
      by (simp add: itemsOf_def)
    have u: "[i..<Suc k] = [i..<k] @ [k]"
      using le by simp
    show ?thesis
      unfolding ih fetchLoop_step [OF k] u by (simp add: its)
  qed
qed

lemma fetchLoop_diverges:
  assumes long: "\<And>j. pageItems stn api j \<noteq> None \<and> 100 \<le> rawCount api j"
  shows "fetchLoop stn api 100 (100 * i) items requested = None"
proof (cases "fetchLoop stn api 100 (100 * i) items requested")
  case None
  then show ?thesis .
next
  case (Some y)
  have "(stn = stn \<and> api = api \<and> (100 :: nat) = 100 \<and> (\<exists>j. 100 * i = 100 * j)) \<longrightarrow> False"
  proof (rule fetchLoop.raw_induct
      [where P = "\<lambda>s a lim start its reqs y.
                    (s = stn \<and> a = api \<and> lim = 100 \<and> (\<exists>j. start = 100 * j)) \<longrightarrow> False",
        OF _ Some])
    fix loop s a lim start its reqs y
    assume ih: "\<And>s a lim start its reqs y. loop s a lim start its reqs = Some y \<Longrightarrow>
        (s = stn \<and> a = api \<and> lim = 100 \<and> (\<exists>j. start = 100 * j)) \<longrightarrow> False"
      and body: "(case a lim start of
          Inl e \<Rightarrow> Some (Inl e, reqs @ [start])
        | Inr body \<Rightarrow>
            (case parsePage s body of
               Inl e \<Rightarrow> Some (Inl e, reqs @ [start])
             | Inr page \<Rightarrow>
                 if fst page < lim
                 then Some (Inr (its @ snd page), reqs @ [start])
                 else loop s a lim (start + lim) (its @ snd page) (reqs @ [start]))) = Some y"
    show "(s = stn \<and> a = api \<and> lim = 100 \<and> (\<exists>j. start = 100 * j)) \<longrightarrow> False"
    proof (intro impI, elim conjE exE)
      fix j
      assume eq: "s = stn" "a = api" "lim = 100" "start = 100 * j"
      from long [of j] obtain parsed where p: "pageItems stn api j = Some parsed"
        and l: "100 \<le> rawCount api j"
        by auto
      from page_valid [OF p] l obtain raw where "api 100 (100 * j) = Inr (JArr raw)"
        "parsePage stn (JArr raw) = Inr (length raw, parsed)" "100 \<le> length raw"
        by auto
      with body eq
      have "loop stn api 100 (100 * Suc j) (its @ parsed) (reqs @ [100 * j]) = Some y"
        by (simp add: add.commute)
      from ih [OF this] show False
        by blast
    qed
  qed
  then show ?thesis
    by blast
qed

lemma first_short_page:
  assumes "\<not> (\<forall>j. pageItems stn api j \<noteq> None \<and> 100 \<le> rawCount api j)"
  shows "\<exists>k. (\<forall>j<k. pageItems stn api j \<noteq> None \<and> 100 \<le> rawCount api j)
           \<and> \<not> (pageItems stn api k \<noteq> None \<and> 100 \<le> rawCount api k)"
proof -
  let ?P = "\<lambda>j. \<not> (pageItems stn api j \<noteq> None \<and> 100 \<le> rawCount api j)"
  from assms obtain j where "?P j" by blast
  then have "?P (LEAST j. ?P j)" by (rule LeastI)
  moreover have "\<not> ?P j" if "j < (LEAST j. ?P j)" for j
    using that by (rule not_less_Least)
  ultimately show ?thesis by blast
qed

lemma fetch_returns:
  assumes "\<And>j. j < k \<Longrightarrow> pageItems stn api j \<noteq> None \<and> 100 \<le> rawCount api j"
    and "pageItems stn api k \<noteq> None" and "rawCount api k < 100"
  shows "fetchLoop stn api 100 0 [] []
           = Some (Inr (concat (map (itemsOf stn api) [0..<Suc k])),
                   map (\<lambda>j. 100 * j) [0..<Suc k])"
proof -
  have adv: "fetchLoop stn api 100 0 [] []
      = fetchLoop stn api 100 (100 * k) (concat (map (itemsOf stn api) [0..<k]))
          (map (\<lambda>j. 100 * j) [0..<k])"
    using fetchLoop_advance [of 0 k stn api "[]" "[]"] assms(1) by simp
  from assms(2) obtain its where its: "pageItems stn api k = Some its" by auto
  then have "itemsOf stn api k = its" by (simp add: itemsOf_def)
  then show ?thesis
    unfolding adv fetchLoop_stop [OF its assms(3)] by simp
qed

lemma fetch_fails:
  assumes "\<And>j. j < k \<Longrightarrow> pageItems stn api j \<noteq> None \<and> 100 \<le> rawCount api j"
    and "pageItems stn api k = None"
  shows "\<exists>e. fetchLoop stn api 100 0 [] [] = Some (Inl e, map (\<lambda>j. 100 * j) [0..<Suc k])"
proof -
  have adv: "fetchLoop stn api 100 0 [] []
      = fetchLoop stn api 100 (100 * k) (concat (map (itemsOf stn api) [0..<k]))
          (map (\<lambda>j. 100 * j) [0..<k])"
    using fetchLoop_advance [of 0 k stn api "[]" "[]"] assms(1) by simp
  show ?thesis
    unfolding adv using fetchLoop_error [OF assms(2)] by simp
qed

lemma fetch_outcome:
  "((\<forall>j. pageItems stn api j \<noteq> None \<and> 100 \<le> rawCount api j)
      \<and> fetchLoop stn api 100 0 [] [] = None)
   \<or> (\<exists>k. (\<forall>j<k. pageItems stn api j \<noteq> None \<and> 100 \<le> rawCount api j)
          \<and> pageItems stn api k \<noteq> None \<and> rawCount api k < 100
          \<and> fetchLoop stn api 100 0 [] []
              = Some (Inr (concat (map (itemsOf stn api) [0..<Suc k])),
                      map (\<lambda>j. 100 * j) [0..<Suc k]))
   \<or> (\<exists>k e. (\<forall>j<k. pageItems stn api j \<noteq> None \<and> 100 \<le> rawCount api j)
          \<and> pageItems stn api k = None
          \<and> fetchLoop stn api 100 0 [] [] = Some (Inl e, map (\<lambda>j. 100 * j) [0..<Suc k]))"
proof (cases "\<forall>j. pageItems stn api j \<noteq> None \<and> 100 \<le> rawCount api j")
  case True
  then have "fetchLoop stn api 100 (100 * 0) [] [] = None"
    by (intro fetchLoop_diverges) blast
  with True show ?thesis
    by simp
next
  case False
  from first_short_page [OF this] obtain k where
    before: "\<forall>j<k. pageItems stn api j \<noteq> None \<and> 100 \<le> rawCount api j"
    and k: "\<not> (pageItems stn api k \<noteq> None \<and> 100 \<le> rawCount api k)"
    by blast
  show ?thesis
  proof (cases "pageItems stn api k")
    case None
    from fetch_fails [of k stn api, OF _ None] before obtain e where
      "fetchLoop stn api 100 0 [] [] = Some (Inl e, map (\<lambda>j. 100 * j) [0..<Suc k])"
      by blast
    with before None show ?thesis
      by blast
  next
    case (Some its)
    with k have short: "rawCount api k < 100"
      by simp
    from Some have v: "pageItems stn api k \<noteq> None"
      by simp
    from fetch_returns [of k stn api, OF _ v short] before
    have "fetchLoop stn api 100 0 [] []
              = Some (Inr (concat (map (itemsOf stn api) [0..<Suc k])),
                      map (\<lambda>j. 100 * j) [0..<Suc k])"
      by blast
    with before v short show ?thesis
      by blast
  qed
qed

lemma rawCount_servePages:
  "rawCount (servePages collection) j = min 100 (length collection - 100 * j)"
  by (simp add: rawCount_def rawPage_def servePages_def min.commute)

lemma last_page_short:
  "rawCount (servePages collection) (length collection div 100) < 100"
proof -
  have "length collection - 100 * (length collection div 100) = length collection mod 100"
    by (simp add: minus_mult_div_eq_mod)
  then show ?thesis
    by (simp add: rawCount_servePages)
qed

lemma long_page_before_last:
  assumes "100 \<le> rawCount (servePages collection) j"
  shows "j < length collection div 100"
proof -
  from assms have "100 \<le> length collection - 100 * j"
    by (simp add: rawCount_servePages)
  then have "100 * Suc j \<le> length collection"
    by simp
  then have "Suc j \<le> length collection div 100"
    by (simp add: less_eq_div_iff_mult_less_eq mult.commute)
  then show ?thesis
    by simp
qed

lemma short_page_last:
  assumes "rawCount (servePages collection) k < 100"
  shows "length collection div 100 \<le> k"
proof -
  from assms have "length collection - 100 * k < 100"
    by (simp add: rawCount_servePages)
  then have "length collection < Suc k * 100"
    by simp
  then have "length collection div 100 < Suc k"
    by (rule less_mult_imp_div_less)
  then show ?thesis
    by simp
qed

text \<open>
  C7. \<^verbatim>\<open>fetchZoteroCollection\<close> requests pages of 100 at the offsets 0, 100, 200, ...
  It returns items exactly when there is a page \<open>k\<close> whose raw count, the length of the
  array that the API returned, is below 100, while every page before it has a raw count
  of at least 100 and the pages up to \<open>k\<close> have items (possibly none, when the filter
  removes every record): it has then requested the pages 0 to \<open>k\<close> and returns their
  items. It ends with an error exactly when the first page that is not both valid and
  full has no items. It never returns exactly when every page is valid and has a raw
  count of at least 100. Against a finite collection served in pages it returns, after
  at most one request more than the collection has full pages, and after exactly that
  many when it returns items.
\<close>

theorem fetchZoteroCollection_pagination:
  "(fetchZoteroCollection stn zotero g c = Some (Inr result, requested)
      \<longleftrightarrow> (\<exists>k. (\<forall>j\<le>k. pageItems stn (zotero g c) j \<noteq> None)
             \<and> (\<forall>j<k. 100 \<le> rawCount (zotero g c) j) \<and> rawCount (zotero g c) k < 100
             \<and> requested = map (\<lambda>j. 100 * j) [0..<Suc k]
             \<and> result = concat (map (itemsOf stn (zotero g c)) [0..<Suc k])))
   \<and> ((\<exists>e. fetchZoteroCollection stn zotero g c = Some (Inl e, requested))
      \<longleftrightarrow> (\<exists>k. (\<forall>j<k. pageItems stn (zotero g c) j \<noteq> None \<and> 100 \<le> rawCount (zotero g c) j)
             \<and> pageItems stn (zotero g c) k = None
             \<and> requested = map (\<lambda>j. 100 * j) [0..<Suc k]))
   \<and> (fetchZoteroCollection stn zotero g c = None
      \<longleftrightarrow> (\<forall>j. pageItems stn (zotero g c) j \<noteq> None \<and> 100 \<le> rawCount (zotero g c) j))
   \<and> (zotero g c = servePages collection \<longrightarrow>
        (\<exists>res k. k \<le> length collection div 100
           \<and> fetchZoteroCollection stn zotero g c = Some (res, map (\<lambda>j. 100 * j) [0..<Suc k]))
        \<and> (\<forall>items offsets. fetchZoteroCollection stn zotero g c = Some (Inr items, offsets) \<longrightarrow>
              offsets = map (\<lambda>j. 100 * j) [0..<Suc (length collection div 100)]))"
proof -
  define api where "api = zotero g c"
  define F where "F = fetchLoop stn api 100 0 [] []"
  have F: "fetchZoteroCollection stn zotero g c = F"
    by (simp add: F_def api_def fetchZoteroCollection_def)
  note out = fetch_outcome [of stn api, folded F_def]
  have ret: "F = Some (Inr (concat (map (itemsOf stn api) [0..<Suc k])),
                       map (\<lambda>j. 100 * j) [0..<Suc k])"
    if "\<forall>j\<le>k. pageItems stn api j \<noteq> None" "\<forall>j<k. 100 \<le> rawCount api j"
      "rawCount api k < 100" for k
    unfolding F_def using that by (intro fetch_returns) auto
  have err: "\<exists>e. F = Some (Inl e, map (\<lambda>j. 100 * j) [0..<Suc k])"
    if "\<forall>j<k. pageItems stn api j \<noteq> None \<and> 100 \<le> rawCount api j" "pageItems stn api k = None"
    for k
    unfolding F_def using that by (intro fetch_fails) auto
  have div: "F = None" if "\<forall>j. pageItems stn api j \<noteq> None \<and> 100 \<le> rawCount api j"
    using fetchLoop_diverges [of stn api 0 "[]" "[]"] that by (simp add: F_def)
  have 1: "F = Some (Inr result, requested)
      \<longleftrightarrow> (\<exists>k. (\<forall>j\<le>k. pageItems stn api j \<noteq> None)
             \<and> (\<forall>j<k. 100 \<le> rawCount api j) \<and> rawCount api k < 100
             \<and> requested = map (\<lambda>j. 100 * j) [0..<Suc k]
             \<and> result = concat (map (itemsOf stn api) [0..<Suc k]))"
  proof
    assume r: "F = Some (Inr result, requested)"
    from out r obtain k where
      k: "\<forall>j<k. pageItems stn api j \<noteq> None \<and> 100 \<le> rawCount api j"
        "pageItems stn api k \<noteq> None" "rawCount api k < 100"
        "F = Some (Inr (concat (map (itemsOf stn api) [0..<Suc k])),
                   map (\<lambda>j. 100 * j) [0..<Suc k])"
      by auto
    have "\<forall>j\<le>k. pageItems stn api j \<noteq> None"
    proof (intro allI impI)
      fix j assume "j \<le> k"
      then have "j < k \<or> j = k" by auto
      with k(1,2) show "pageItems stn api j \<noteq> None" by blast
    qed
    moreover from k(1) have "\<forall>j<k. 100 \<le> rawCount api j" by blast
    moreover from k(4) r have "requested = map (\<lambda>j. 100 * j) [0..<Suc k]"
      "result = concat (map (itemsOf stn api) [0..<Suc k])"
      by simp_all
    ultimately show "\<exists>k. (\<forall>j\<le>k. pageItems stn api j \<noteq> None)
             \<and> (\<forall>j<k. 100 \<le> rawCount api j) \<and> rawCount api k < 100
             \<and> requested = map (\<lambda>j. 100 * j) [0..<Suc k]
             \<and> result = concat (map (itemsOf stn api) [0..<Suc k])"
      using k(3) by blast
  next
    assume "\<exists>k. (\<forall>j\<le>k. pageItems stn api j \<noteq> None)
             \<and> (\<forall>j<k. 100 \<le> rawCount api j) \<and> rawCount api k < 100
             \<and> requested = map (\<lambda>j. 100 * j) [0..<Suc k]
             \<and> result = concat (map (itemsOf stn api) [0..<Suc k])"
    then obtain k where "\<forall>j\<le>k. pageItems stn api j \<noteq> None" "\<forall>j<k. 100 \<le> rawCount api j"
      "rawCount api k < 100" and eq: "requested = map (\<lambda>j. 100 * j) [0..<Suc k]"
      "result = concat (map (itemsOf stn api) [0..<Suc k])"
      by blast
    from ret [OF this(1-3)] eq show "F = Some (Inr result, requested)"
      by simp
  qed
  have 2: "(\<exists>e. F = Some (Inl e, requested))
      \<longleftrightarrow> (\<exists>k. (\<forall>j<k. pageItems stn api j \<noteq> None \<and> 100 \<le> rawCount api j)
             \<and> pageItems stn api k = None
             \<and> requested = map (\<lambda>j. 100 * j) [0..<Suc k])"
  proof
    assume "\<exists>e. F = Some (Inl e, requested)"
    then obtain e where r: "F = Some (Inl e, requested)" by blast
    from out r obtain k e' where
      "\<forall>j<k. pageItems stn api j \<noteq> None \<and> 100 \<le> rawCount api j"
      "pageItems stn api k = None"
      "F = Some (Inl e', map (\<lambda>j. 100 * j) [0..<Suc k])"
      by auto
    with r show "\<exists>k. (\<forall>j<k. pageItems stn api j \<noteq> None \<and> 100 \<le> rawCount api j)
             \<and> pageItems stn api k = None
             \<and> requested = map (\<lambda>j. 100 * j) [0..<Suc k]"
      by auto
  next
    assume "\<exists>k. (\<forall>j<k. pageItems stn api j \<noteq> None \<and> 100 \<le> rawCount api j)
             \<and> pageItems stn api k = None
             \<and> requested = map (\<lambda>j. 100 * j) [0..<Suc k]"
    then obtain k where "\<forall>j<k. pageItems stn api j \<noteq> None \<and> 100 \<le> rawCount api j"
      "pageItems stn api k = None" and eq: "requested = map (\<lambda>j. 100 * j) [0..<Suc k]"
      by blast
    from err [OF this(1,2)] eq show "\<exists>e. F = Some (Inl e, requested)"
      by simp
  qed
  have 3: "F = None \<longleftrightarrow> (\<forall>j. pageItems stn api j \<noteq> None \<and> 100 \<le> rawCount api j)"
  proof
    assume "F = None"
    with out show "\<forall>j. pageItems stn api j \<noteq> None \<and> 100 \<le> rawCount api j"
      by auto
  next
    assume "\<forall>j. pageItems stn api j \<noteq> None \<and> 100 \<le> rawCount api j"
    then show "F = None" by (rule div)
  qed
  have 4: "(\<exists>res k. k \<le> length collection div 100
           \<and> F = Some (res, map (\<lambda>j. 100 * j) [0..<Suc k]))
        \<and> (\<forall>items offsets. F = Some (Inr items, offsets) \<longrightarrow>
              offsets = map (\<lambda>j. 100 * j) [0..<Suc (length collection div 100)])"
    if s: "api = servePages collection"
  proof
    let ?K = "length collection div 100"
    have short: "\<not> 100 \<le> rawCount api ?K"
      using last_page_short [of collection] by (simp add: s)
    have le: "k \<le> ?K" if "\<forall>j<k. pageItems stn api j \<noteq> None \<and> 100 \<le> rawCount api j" for k
    proof (rule ccontr)
      assume "\<not> k \<le> ?K"
      then have "?K < k" by simp
      with that have "100 \<le> rawCount api ?K" by blast
      with short show False ..
    qed
    from out short le show "\<exists>res k. k \<le> ?K \<and> F = Some (res, map (\<lambda>j. 100 * j) [0..<Suc k])"
      by blast
    show "\<forall>items offsets. F = Some (Inr items, offsets) \<longrightarrow>
              offsets = map (\<lambda>j. 100 * j) [0..<Suc ?K]"
    proof (intro allI impI)
      fix items offsets
      assume r: "F = Some (Inr items, offsets)"
      from out r obtain k where
        k: "\<forall>j<k. pageItems stn api j \<noteq> None \<and> 100 \<le> rawCount api j"
          "rawCount api k < 100"
          "F = Some (Inr (concat (map (itemsOf stn api) [0..<Suc k])),
                     map (\<lambda>j. 100 * j) [0..<Suc k])"
        by auto
      from le [OF k(1)] short_page_last [of collection k] k(2) have "k = ?K"
        by (simp add: s)
      with k(3) r show "offsets = map (\<lambda>j. 100 * j) [0..<Suc ?K]"
        by simp
    qed
  qed
  from 1 2 3 4 show ?thesis
    unfolding F api_def [symmetric] by blast
qed





lemma those_replicate:
  "those (replicate n (Some x)) = Some (replicate n x)"
  by (induction n) simp_all

lemma example_records:
  "hasData rawArticle" "\<not> isNote rawArticle" "hasData noteRecord" "isNote noteRecord"
  by (simp_all add: hasData_def isNote_def rawArticle_def noteRecord_def)

lemma accepted_rawArticle:
  "accepted stn rawArticle = Some articleItem"
  by (simp add: accepted_def parse_rawArticle)

lemma surviving_articles_notes:
  "surviving stn (replicate n rawArticle @ replicate m noteRecord) = Some (replicate n articleItem)"
proof -
  have "list_all hasData (replicate n rawArticle @ replicate m noteRecord)"
    by (auto simp: list_all_iff set_replicate_conv_if example_records split: if_splits)
  then show ?thesis
    by (simp add: surviving_def example_records accepted_rawArticle those_replicate)
qed

theorem fetchZoteroCollection_pagination_witness:
  "fetchZoteroCollection (\<lambda>s. NaN)
       (\<lambda>g c. servePages (replicate 99 rawArticle @ [noteRecord, noteRecord]))
       ''5145258'' ''YGTEVG73''
     = Some (Inr (replicate 99 articleItem), [0, 100])
   \<and> fetchZoteroCollection (\<lambda>s. NaN) (\<lambda>g c limit start. Inr (JArr (replicate 100 noteRecord)))
       ''5145258'' ''YGTEVG73'' = None"
proof -
  let ?api = "servePages (replicate 99 rawArticle @ [noteRecord, noteRecord])"
  let ?notes = "\<lambda>(limit :: nat) (start :: nat). Inr (JArr (replicate 100 noteRecord)) :: error + json"
  have p: "rawPage ?api 0 = Some (replicate 99 rawArticle @ replicate 1 noteRecord)"
    "rawPage ?api (Suc 0) = Some (replicate 0 rawArticle @ replicate 1 noteRecord)"
    by (simp_all add: rawPage_def servePages_def)
  have i: "pageItems (\<lambda>s. NaN) ?api 0 = Some (replicate 99 articleItem)"
    "pageItems (\<lambda>s. NaN) ?api (Suc 0) = Some []"
    unfolding pageItems_def p option.case surviving_articles_notes by simp_all
  have n: "rawCount ?api 0 = 100" "rawCount ?api (Suc 0) = 1"
    unfolding rawCount_def p by simp_all
  have valid: "\<forall>j\<le>1. pageItems (\<lambda>s. NaN) ?api j \<noteq> None"
  proof (intro allI impI)
    fix j :: nat
    assume "j \<le> 1"
    then consider "j = 0" | "j = 1"
      by linarith
    then show "pageItems (\<lambda>s. NaN) ?api j \<noteq> None"
      by cases (simp_all add: i)
  qed
  have u: "[0..<Suc 1] = [0, 1]"
    by (simp add: upt_rec)
  have stops: "\<exists>k. (\<forall>j\<le>k. pageItems (\<lambda>s. NaN) ?api j \<noteq> None)
             \<and> (\<forall>j<k. 100 \<le> rawCount ?api j) \<and> rawCount ?api k < 100
             \<and> [0, 100] = map (\<lambda>j. 100 * j) [0..<Suc k]
             \<and> replicate 99 articleItem = concat (map (itemsOf (\<lambda>s. NaN) ?api) [0..<Suc k])"
    using valid by (intro exI [of _ 1]) (simp add: n u itemsOf_def i)
  have first: "fetchZoteroCollection (\<lambda>s. NaN) (\<lambda>g c. ?api) ''5145258'' ''YGTEVG73''
     = Some (Inr (replicate 99 articleItem), [0, 100])"
    using fetchZoteroCollection_pagination
      [where stn = "\<lambda>s. NaN" and zotero = "\<lambda>g c. ?api" and g = "''5145258''"
         and c = "''YGTEVG73''" and result = "replicate 99 articleItem"
         and requested = "[0, 100]"]
      stops
    by simp
  have full: "\<forall>j. pageItems (\<lambda>s. NaN) ?notes j \<noteq> None \<and> 100 \<le> rawCount ?notes j"
    using surviving_articles_notes [of "\<lambda>s. NaN" 0 100]
    by (simp add: pageItems_def rawPage_def rawCount_def)
  have second: "fetchZoteroCollection (\<lambda>s. NaN) (\<lambda>g c. ?notes) ''5145258'' ''YGTEVG73'' = None"
    using fetchZoteroCollection_pagination
      [where stn = "\<lambda>s. NaN" and zotero = "\<lambda>g c. ?notes" and g = "''5145258''"
         and c = "''YGTEVG73''"]
      full
    by simp
  from first second show ?thesis
    by simp
qed

section \<open>Properties of the export writer\<close>

lemma div_succ:
  fixes a n :: int
  assumes "0 < n"
  shows "(a + 1) div n = a div n + (if (a + 1) mod n = 0 then 1 else 0)"
proof (cases "(a + 1) mod n = 0")
  case True
  then obtain q where q: "a + 1 = q * n"
    by (metis mod_eq_0_iff_dvd dvd_def mult.commute)
  then have a: "a = (q - 1) * n + (n - 1)"
    by (simp add: algebra_simps)
  have "a div n = q - 1"
    by (subst a) (use assms in \<open>simp add: div_mult_self4 [of n] del: div_mult_self4\<close>)
  with q assms True show ?thesis
    by simp
next
  case False
  have m: "a mod n + 1 \<noteq> n"
  proof
    assume "a mod n + 1 = n"
    then have "(a + 1) mod n = 0"
      by (metis mod_add_left_eq mod_self)
    with False show False by simp
  qed
  have "a mod n < n" using assms by simp
  with m have lt: "a mod n + 1 < n" by simp
  have ge: "0 \<le> a mod n + 1" using assms by (simp add: add_nonneg_nonneg)
  have "a + 1 = n * (a div n) + (a mod n + 1)"
    by simp
  then have "(a + 1) div n = a div n"
    using lt ge by (metis div_pos_pos_trivial div_mult_self2 add.commute assms less_irrefl add.right_neutral)
  with False show ?thesis by simp
qed


lemma mod_shift:
  fixes y :: int
  shows "(y - n * k) mod n = y mod n"
  using mod_mult_self2 [of y n "- k"] by simp

lemma leap_mods:
  fixes y :: int
  shows "((y - 1968) mod 4 = 0) = (y mod 4 = 0)"
    and "((y - 1900) mod 100 = 0) = (y mod 100 = 0)"
    and "((y - 1600) mod 400 = 0) = (y mod 400 = 0)"
  using mod_shift [of y 4 492] mod_shift [of y 100 19] mod_shift [of y 400 4]
  by simp_all

lemma leap_chain:
  fixes y :: int
  shows "y mod 400 = 0 \<Longrightarrow> y mod 100 = 0" and "y mod 100 = 0 \<Longrightarrow> y mod 4 = 0"
  using mod_mod_cancel [of 100 400 y] mod_mod_cancel [of 4 100 y]
  by simp_all


lemma DayFromYear_step:
  "DayFromYear (y + 1) = DayFromYear y + (if InLeapYear y then 366 else 365)"
proof -
  have d4: "(y - 1968) div 4 = (y - 1969) div 4 + (if y mod 4 = 0 then 1 else 0)"
    using div_succ [of 4 "y - 1969"] by (simp add: leap_mods)
  have d100: "(y - 1900) div 100 = (y - 1901) div 100 + (if y mod 100 = 0 then 1 else 0)"
    using div_succ [of 100 "y - 1901"] by (simp add: leap_mods)
  have d400: "(y - 1600) div 400 = (y - 1601) div 400 + (if y mod 400 = 0 then 1 else 0)"
    using div_succ [of 400 "y - 1601"] by (simp add: leap_mods)
  have e: "DayFromYear (y + 1)
          = 365 * (y - 1969) + (y - 1968) div 4 - (y - 1900) div 100 + (y - 1600) div 400"
    by (simp add: DayFromYear_def)
  consider (a) "y mod 400 = 0" | (b) "y mod 400 \<noteq> 0" "y mod 100 = 0"
    | (c) "y mod 100 \<noteq> 0" "y mod 4 = 0" | (d) "y mod 4 \<noteq> 0"
    by blast
  then show ?thesis
  proof cases
    case a
    then have h: "y mod 100 = 0" by (rule leap_chain(1))
    then have "y mod 4 = 0" by (rule leap_chain(2))
    with a h show ?thesis
      unfolding e d4 d100 d400 by (simp only: DayFromYear_def InLeapYear_def if_True) simp
  next
    case b
    from b(2) have "y mod 4 = 0" by (rule leap_chain(2))
    with b show ?thesis
      unfolding e d4 d100 d400
      by (simp only: DayFromYear_def InLeapYear_def if_True if_False simp_thms) simp
  next
    case c
    have "y mod 400 \<noteq> 0"
    proof
      assume "y mod 400 = 0"
      then have "y mod 100 = 0" by (rule leap_chain(1))
      with c(1) show False by (rule notE)
    qed
    with c show ?thesis
      unfolding e d4 d100 d400
      by (simp only: DayFromYear_def InLeapYear_def if_True if_False simp_thms) simp
  next
    case d
    have h: "y mod 100 \<noteq> 0"
    proof
      assume "y mod 100 = 0"
      then have "y mod 4 = 0" by (rule leap_chain(2))
      with d show False by (rule notE)
    qed
    have "y mod 400 \<noteq> 0"
    proof
      assume "y mod 400 = 0"
      then have "y mod 100 = 0" by (rule leap_chain(1))
      with h show False by (rule notE)
    qed
    with d h show ?thesis
      unfolding e d4 d100 d400
      by (simp only: DayFromYear_def InLeapYear_def if_True if_False simp_thms) simp
  qed
qed

lemma DayFromYear_mono:
  assumes "y < y'"
  shows "DayFromYear y + 365 \<le> DayFromYear y'"
proof -
  have "DayFromYear y + 365 \<le> DayFromYear (y + 1 + int n)" for n
  proof (induction n)
    case 0
    show ?case using DayFromYear_step [of y] by simp
  next
    case (Suc n)
    have "DayFromYear (y + 1 + int n) \<le> DayFromYear (y + 1 + int n + 1)"
      using DayFromYear_step [of "y + 1 + int n"] by simp
    also have "y + 1 + int n + 1 = y + 1 + int (Suc n)"
      by simp
    finally show ?case
      using Suc by simp
  qed
  from this [of "nat (y' - y - 1)"] assms show ?thesis
    by simp
qed

lemma month_cases:
  fixes m :: int
  assumes "0 \<le> m" "m \<le> 11"
  shows "m = 0 \<or> m = 1 \<or> m = 2 \<or> m = 3 \<or> m = 4 \<or> m = 5 \<or> m = 6 \<or> m = 7 \<or> m = 8
         \<or> m = 9 \<or> m = 10 \<or> m = 11"
  using assms by arith

lemma monthStartDay_bounds:
  assumes "0 \<le> m" "m \<le> 11"
  shows "0 \<le> monthStartDay m leap \<and> monthStartDay m leap \<le> 335"
  using month_cases [OF assms] by (auto simp: monthStartDay_def)

lemma monthStartDay_next:
  assumes "0 \<le> m" "m \<le> 10"
  shows "monthStartDay m leap < monthStartDay (m + 1) leap"
proof -
  from assms have "m = 0 \<or> m = 1 \<or> m = 2 \<or> m = 3 \<or> m = 4 \<or> m = 5 \<or> m = 6 \<or> m = 7
      \<or> m = 8 \<or> m = 9 \<or> m = 10"
    by arith
  then show ?thesis
    by (auto simp: monthStartDay_def)
qed

lemma monthStartDay_mono:
  assumes "0 \<le> m" "m < m'" "m' \<le> 11"
  shows "monthStartDay m leap < monthStartDay m' leap"
proof -
  have "monthStartDay m leap < monthStartDay (m + 1 + int n) leap" if "m + 1 + int n \<le> 11" for n
    using that
  proof (induction n)
    case 0
    with assms(1) show ?case using monthStartDay_next [of m leap] by simp
  next
    case (Suc n)
    then have "monthStartDay m leap < monthStartDay (m + 1 + int n) leap"
      by simp
    also have "\<dots> < monthStartDay (m + 1 + int n + 1) leap"
      using Suc.prems assms(1) by (intro monthStartDay_next) simp_all
    also have "m + 1 + int n + 1 = m + 1 + int (Suc n)"
      by simp
    finally show ?case .
  qed
  from this [of "nat (m' - m - 1)"] assms show ?thesis
    by simp
qed

text \<open>The month ordinal of a date orders the day numbers.\<close>

lemma MakeDay_in_range:
  assumes "0 \<le> m" "m \<le> 11"
  shows "MakeDay y m = DayFromYear y + monthStartDay m (InLeapYear y)"
  using assms by (simp add: MakeDay_def Let_def)

lemma MakeDay_mono:
  assumes "0 \<le> m" "m \<le> 11" "0 \<le> m'" "m' \<le> 11"
    and "y < y' \<or> (y = y' \<and> m < m')"
  shows "MakeDay y m < MakeDay y' m'"
proof -
  from assms(5) show ?thesis
  proof
    assume "y < y'"
    then have "DayFromYear y + 365 \<le> DayFromYear y'"
      by (rule DayFromYear_mono)
    moreover have "monthStartDay m (InLeapYear y) \<le> 335"
      using monthStartDay_bounds [OF assms(1,2)] by simp
    moreover have "0 \<le> monthStartDay m' (InLeapYear y')"
      using monthStartDay_bounds [OF assms(3,4)] by simp
    ultimately show ?thesis
      using assms(1-4) by (simp add: MakeDay_in_range)
  next
    assume "y = y' \<and> m < m'"
    then show ?thesis
      using monthStartDay_mono [of m m' "InLeapYear y"] assms(1-4)
      by (simp add: MakeDay_in_range)
  qed
qed

lemma set_insertSorted: "set (insertSorted comparefn x ys) = insert x (set ys)"
  by (induction ys) auto

lemma set_toSorted: "set (toSorted comparefn xs) = set xs"
  by (induction xs) (simp_all add: toSorted_def set_insertSorted)

lemma insertSorted_sorted:
  assumes cmp: "\<And>y. y \<in> set ys \<Longrightarrow> sortCompare c x y = k y - k x"
    and "sorted_wrt (\<lambda>u v. k v \<le> k u) ys"
  shows "sorted_wrt (\<lambda>u v. (k v :: int) \<le> k u) (insertSorted c x ys)"
  using assms
proof (induction ys)
  case Nil
  then show ?case by simp
next
  case (Cons y ys)
  show ?case
  proof (cases "sortCompare c x y \<le> 0")
    case True
    with Cons.prems(1) [of y] have "k y \<le> k x" by simp
    with Cons.prems(2) True show ?thesis by fastforce
  next
    case False
    with Cons.prems(1) [of y] have "k x < k y" by simp
    moreover have "sorted_wrt (\<lambda>u v. k v \<le> k u) (insertSorted c x ys)"
      using Cons by simp
    ultimately show ?thesis
      using False Cons.prems(2) by (auto simp: set_insertSorted)
  qed
qed

lemma insertSorted_filter:
  assumes cmp: "\<And>y. y \<in> set ys \<Longrightarrow> sortCompare c x y = k y - k x"
  shows "filter (\<lambda>z. k z = (v :: int)) (insertSorted c x ys)
           = filter (\<lambda>z. k z = v) (x # ys)"
  using assms
proof (induction ys)
  case Nil
  then show ?case by simp
next
  case (Cons y ys)
  show ?case
  proof (cases "sortCompare c x y \<le> 0")
    case True
    then show ?thesis by simp
  next
    case False
    with Cons.prems [of y] have "k x < k y" by simp
    moreover have "filter (\<lambda>z. k z = v) (insertSorted c x ys) = filter (\<lambda>z. k z = v) (x # ys)"
      using Cons by simp
    ultimately show ?thesis
      using False by auto
  qed
qed

lemma toSorted_by_key:
  assumes cmp: "\<And>x y. x \<in> set xs \<Longrightarrow> y \<in> set xs \<Longrightarrow> sortCompare c x y = k y - k x"
  shows "sorted_wrt (\<lambda>u v. (k v :: int) \<le> k u) (toSorted c xs)
       \<and> (\<forall>v. filter (\<lambda>z. k z = v) (toSorted c xs) = filter (\<lambda>z. k z = v) xs)"
  using assms
proof (induction xs)
  case Nil
  show ?case by (simp add: toSorted_def)
next
  case (Cons x xs)
  have t: "toSorted c (x # xs) = insertSorted c x (toSorted c xs)"
    by (simp add: toSorted_def)
  have ih: "sorted_wrt (\<lambda>u v. k v \<le> k u) (toSorted c xs)"
    "\<And>v. filter (\<lambda>z. k z = v) (toSorted c xs) = filter (\<lambda>z. k z = v) xs"
    using Cons by simp_all
  have c: "sortCompare c x y = k y - k x" if "y \<in> set (toSorted c xs)" for y
    using that Cons.prems by (simp add: set_toSorted)
  show ?case
    unfolding t
    using insertSorted_sorted [of "toSorted c xs" c x k, OF c ih(1)]
      insertSorted_filter [of "toSorted c xs" c x k, OF c]
    by (simp add: ih(2))
qed

lemma ordinaryDate_key:
  assumes "ordinaryDate x"
  obtains y m where "dateKey x = Some (y, m)" "100 \<le> y" "y \<le> 9999" "0 \<le> m" "m \<le> 11"
  using assms by (auto simp: ordinaryDate_def split: option.splits)

lemma DayFromYear_le:
  assumes "y \<le> y'"
  shows "DayFromYear y \<le> DayFromYear y'"
proof (cases "y = y'")
  case True
  then show ?thesis by simp
next
  case False
  with assms have "y < y'" by simp
  from DayFromYear_mono [OF this] show ?thesis by simp
qed

lemma ordinary_time:
  assumes "100 \<le> y" "y \<le> 9999" "0 \<le> m" "m \<le> 11"
  shows "dateTime (Some (Num y)) (Num m) = Num (timeOfKey (y, m))"
proof -
  have lo: "DayFromYear 100 \<le> DayFromYear y" and hi: "DayFromYear y \<le> DayFromYear 9999"
    using assms by (simp_all add: DayFromYear_le)
  have v: "DayFromYear 100 = - 683003" "DayFromYear 9999 = 2932532"
    by (simp_all add: DayFromYear_def)
  have b: "0 \<le> monthStartDay m (InLeapYear y)" "monthStartDay m (InLeapYear y) \<le> 335"
    using monthStartDay_bounds [OF assms(3,4)] by simp_all
  have "\<bar>MakeDay y m\<bar> \<le> 100000000"
    using lo hi b assms unfolding v by (simp add: MakeDay_in_range)
  then have "\<not> 8640000000000000 < \<bar>MakeDay y m * 86400000\<bar>"
    by (simp add: abs_mult)
  with assms show ?thesis
    by (simp add: dateTime_def TimeClip_def timeOfKey_def)
qed

lemma compare_ordinary:
  assumes "ordinaryDate x" "ordinaryDate y"
  shows "sortCompare compareByDate x y
           = timeOfKey (the (dateKey y)) - timeOfKey (the (dateKey x))"
proof -
  from assms(1) obtain yx mx where x: "dateKey x = Some (yx, mx)"
    "100 \<le> yx" "yx \<le> 9999" "0 \<le> mx" "mx \<le> 11"
    by (rule ordinaryDate_key)
  from assms(2) obtain yy my where y: "dateKey y = Some (yy, my)"
    "100 \<le> yy" "yy \<le> 9999" "0 \<le> my" "my \<le> 11"
    by (rule ordinaryDate_key)
  from x(1) have kx: "year (date x) = Some (Num yx)" "monthOrZero x = Num mx"
    by (auto simp: dateKey_def split: option.splits jsnum.splits)
  from y(1) have ky: "year (date y) = Some (Num yy)" "monthOrZero y = Num my"
    by (auto simp: dateKey_def split: option.splits jsnum.splits)
  show ?thesis
    by (simp add: sortCompare_def compareByDate_def Let_def kx ky x(1) y(1)
          ordinary_time [OF x(2-5)] ordinary_time [OF y(2-5)])
qed

lemma time_order:
  assumes "ordinaryDate u" "ordinaryDate v"
    and "timeOfKey (the (dateKey v)) \<le> timeOfKey (the (dateKey u))"
  shows "keyLe (the (dateKey v)) (the (dateKey u))"
proof -
  from assms(1) obtain yu mu where u: "dateKey u = Some (yu, mu)" "0 \<le> mu" "mu \<le> 11"
    by (rule ordinaryDate_key)
  from assms(2) obtain yv mv where v: "dateKey v = Some (yv, mv)" "0 \<le> mv" "mv \<le> 11"
    by (rule ordinaryDate_key)
  show ?thesis
  proof (rule ccontr)
    assume "\<not> keyLe (the (dateKey v)) (the (dateKey u))"
    then have "yu < yv \<or> (yu = yv \<and> mu < mv)"
      by (auto simp: keyLe_def u(1) v(1))
    from MakeDay_mono [OF u(2,3) v(2,3) this] assms(3) show False
      by (simp add: timeOfKey_def u(1) v(1))
  qed
qed

text \<open>
  What holds of the export sort: on items whose year is between 100 and 9999 and whose
  month, if any, is between 0 and 11, it sorts in descending order of the key
  (year, month-or-0) and keeps the input order of the items of each key.
\<close>

lemma sort_descending_stable:
  assumes "\<forall>x \<in> set xs. ordinaryDate x"
  shows "sorted_wrt (\<lambda>u v. keyLe (the (dateKey v)) (the (dateKey u))) (toSorted compareByDate xs)
       \<and> (\<forall>k. filter (\<lambda>z. dateKey z = Some k) (toSorted compareByDate xs)
                = filter (\<lambda>z. dateKey z = Some k) xs)"
proof -
  let ?t = "\<lambda>z. timeOfKey (the (dateKey z))"
  have c: "sortCompare compareByDate x y = ?t y - ?t x" if "x \<in> set xs" "y \<in> set xs" for x y
    using that assms by (simp add: compare_ordinary)
  from toSorted_by_key [of xs compareByDate ?t, OF c]
  have s: "sorted_wrt (\<lambda>u v. ?t v \<le> ?t u) (toSorted compareByDate xs)"
    and f: "\<And>v. filter (\<lambda>z. ?t z = v) (toSorted compareByDate xs) = filter (\<lambda>z. ?t z = v) xs"
    by simp_all
  have 1: "sorted_wrt (\<lambda>u v. keyLe (the (dateKey v)) (the (dateKey u))) (toSorted compareByDate xs)"
    using s
  proof (rule sorted_wrt_mono_rel [rotated])
    fix u v
    assume "u \<in> set (toSorted compareByDate xs)" "v \<in> set (toSorted compareByDate xs)"
      and "?t v \<le> ?t u"
    with assms show "keyLe (the (dateKey v)) (the (dateKey u))"
      by (intro time_order) (simp_all add: set_toSorted)
  qed
  have 2: "filter (\<lambda>z. dateKey z = Some k) (toSorted compareByDate xs)
             = filter (\<lambda>z. dateKey z = Some k) xs" for k
  proof -
    have e: "filter (\<lambda>z. dateKey z = Some k) ys
               = filter (\<lambda>z. dateKey z = Some k) (filter (\<lambda>z. ?t z = timeOfKey k) ys)" for ys
      by (induction ys) auto
    show ?thesis
      by (subst e, subst f, subst e [symmetric]) (rule refl)
  qed
  from 1 2 show ?thesis
    by blast
qed

lemma dateTime_2023_12: "dateTime (Some (Num 2023)) (Num 12) = Num 1704067200000"
  by (simp add: dateTime_def MakeDay_def DayFromYear_def InLeapYear_def monthStartDay_def
        TimeClip_def Let_def)

lemma dateTime_2024_0: "dateTime (Some (Num 2024)) (Num 0) = Num 1704067200000"
  by (simp add: dateTime_def MakeDay_def DayFromYear_def InLeapYear_def monthStartDay_def
        TimeClip_def Let_def)

lemma compare_tie:
  "compareByDate articleItem preprintItem = Num 0"
  "compareByDate preprintItem articleItem = Num 0"
  by (simp_all add: compareByDate_def monthOrZero_def articleItem_def preprintItem_def
        dateTime_2023_12 dateTime_2024_0 Let_def)

lemma sort_example:
  "toSorted compareByDate
     [datedItem 2023 (Some (Num 5)), datedItem 2023 None, datedItem 2024 (Some (Num 1))]
   = [datedItem 2024 (Some (Num 1)), datedItem 2023 (Some (Num 5)), datedItem 2023 None]"
  by (simp add: toSorted_def sortCompare_def compareByDate_def monthOrZero_def datedItem_def
        dateTime_def MakeDay_def DayFromYear_def InLeapYear_def monthStartDay_def
        TimeClip_def Let_def)

text \<open>
  C4. The export sort compares the time values of \<^verbatim>\<open>new Date(year, month ?? 0)\<close>,
  whose month index counts from 0. The month 12 of a year is therefore the month 0 of
  the next year: an item of December 2023 and an item of 2024 without a month have the
  same time value and keep their input order, so the item of 2023 can come out before
  the item of 2024. (On ordinary dates, with months up to 11, the sort is descending by
  the key and stable, see \<open>sort_descending_stable\<close>, and the order of the example
  of the claim is as the claim gives it, see \<open>sort_example\<close>.)
\<close>

theorem sort_december_tie:
  "dateKey articleItem = Some (2023, 12) \<and> dateKey preprintItem = Some (2024, 0)
   \<and> compareByDate articleItem preprintItem = Num 0
   \<and> toSorted compareByDate [articleItem, preprintItem] = [articleItem, preprintItem]
   \<and> \<not> keyLe (2024, 0) (2023, 12)
   \<and> \<not> sorted_wrt (\<lambda>u v. keyLe (the (dateKey v)) (the (dateKey u)))
           (toSorted compareByDate [articleItem, preprintItem])"
proof -
  have k: "dateKey articleItem = Some (2023, 12)" "dateKey preprintItem = Some (2024, 0)"
    by (simp_all add: dateKey_def monthOrZero_def articleItem_def preprintItem_def)
  have s: "toSorted compareByDate [articleItem, preprintItem] = [articleItem, preprintItem]"
    by (simp add: toSorted_def sortCompare_def compare_tie)
  have n: "\<not> keyLe (2024, 0) (2023, 12)"
    by (simp add: keyLe_def)
  from k s n compare_tie(1) show ?thesis
    by simp
qed






section \<open>Properties of the run\<close>

lemma fetch_single_page:
  assumes "zotero g c 100 0 = Inr (JArr raw)"
    and "parsePage stn (JArr raw) = Inr (n, parsed)"
    and "n < 100"
  shows "fetchZoteroCollection stn zotero g c = Some (Inr parsed, [0])"
  unfolding fetchZoteroCollection_def
  by (subst fetchLoop.simps) (simp add: assms)

lemma collections_distinct:
  "HIDIVE_PREPRINTS_COLLECTION_ID \<noteq> HIDIVE_PUBLICATIONS_COLLECTION_ID"
  by (simp add: HIDIVE_PREPRINTS_COLLECTION_ID_def HIDIVE_PUBLICATIONS_COLLECTION_ID_def)

lemma parsePage_article_preprint:
  "parsePage stn (JArr [rawArticle, rawPreprint]) = Inr (2, [articleItem, preprintItem])"
proof -
  have "filterE isNotNote [rawArticle, rawPreprint] = Inr [rawArticle, rawPreprint]"
    by (simp add: rawArticle_def rawPreprint_def bindE_def)
  then show ?thesis
    by (simp add: parsePage_def bindE_def parse_rawArticle parse_rawPreprint)
qed

lemma parsePage_preprint:
  "parsePage stn (JArr [rawPreprint]) = Inr (1, [preprintItem])"
proof -
  have "filterE isNotNote [rawPreprint] = Inr [rawPreprint]"
    by (simp add: rawPreprint_def bindE_def)
  then show ?thesis
    by (simp add: parsePage_def bindE_def parse_rawPreprint)
qed



lemma fetch_overlapping:
  "fetchZoteroCollection stn overlappingZotero HIDIVE_GROUP_ID HIDIVE_PUBLICATIONS_COLLECTION_ID
     = Some (Inr [articleItem, preprintItem], [0])"
  "fetchZoteroCollection stn overlappingZotero HIDIVE_GROUP_ID HIDIVE_PREPRINTS_COLLECTION_ID
     = Some (Inr [preprintItem], [0])"
  using fetch_single_page [OF _ parsePage_article_preprint, of overlappingZotero
      HIDIVE_GROUP_ID HIDIVE_PUBLICATIONS_COLLECTION_ID stn]
    fetch_single_page [OF _ parsePage_preprint, of overlappingZotero
      HIDIVE_GROUP_ID HIDIVE_PREPRINTS_COLLECTION_ID stn]
  by (simp_all add: overlappingZotero_def servePages_def collections_distinct)

lemma pubmed_example:
  "getPubMedIds exampleNcbi [''10.1/a''] 100 = Some (Inr [''10.1/a'' \<mapsto> ''123''], [[''10.1/a'']])"
proof -
  have c: "chunks 100 [''10.1/a''] = [[''10.1/a'']]"
    by (simp add: chunks.simps)
  show ?thesis
    unfolding getPubMedIds_def
    by (simp add: getPubMedIdsLoop_total c exampleNcbi_def exampleNcbi_records truthy_def)
qed


lemma formatCitation_articleItem:
  "formatCitation articleItem
     = (Inr (''JA Doe, '' @ dquote @ ''Gosling'' @ dquote @ '', Nature 600:100-110 (2023).''), [])"
  by (simp add: formatCitation_def formatZoteroItem_def formatJournalInfo_def
        journalCitation_def formatAuthors_def matchCapitals_def isCapital_def it_def b_def
        truthy_def showNum_def showInt_def digitChar_def articleItem_def Let_def)

lemma formatCitation_preprintItem:
  "formatCitation preprintItem
     = (Inr (''HuBMAP Consortium, '' @ dquote @ ''Vitessce'' @ dquote
              @ '', OSF Preprints (2024).''), [])"
  by (simp add: formatCitation_def formatZoteroItem_def formatJournalInfo_def
        formatAuthors_def optIncludes_def it_def
        showNum_def showInt_def digitChar_def preprintItem_def Let_def)

lemma sort_overlapping:
  "toSorted compareByDate [articleItem, preprintItem, preprintItem]
     = [articleItem, preprintItem, preprintItem]"
proof -
  have "compareByDate preprintItem preprintItem = Num 0"
    by (simp add: compareByDate_def monthOrZero_def preprintItem_def dateTime_2024_0 Let_def)
  then show ?thesis
    by (simp add: toSorted_def sortCompare_def compare_tie)
qed

lemma exportPapers_files:
  assumes "toCsv (filter (\<lambda>p. itemType (item p) \<noteq> ''preprint'') xs) = (Inr t, log)"
    and "toCsv (filter (\<lambda>p. itemType (item p) = ''preprint'') xs) = (Inr t', log')"
  shows "exportPapers xs emptyWorld
           = (Inr (), \<lparr>files = [(''papers.json'', JsonDocument xs), (''pubs.csv'', CsvDocument t),
                                  (''preprints.csv'', CsvDocument t')],
                        console = log @ log'\<rparr>)"
  using assms
  by (simp add: exportPapers_def Let_def writeTextFile_def logAll_def emptyWorld_def)

lemma main_exports:
  assumes "fetchZoteroCollection stn zotero HIDIVE_GROUP_ID HIDIVE_PUBLICATIONS_COLLECTION_ID
             = Some (Inr pubs, r1)"
    and "fetchZoteroCollection stn zotero HIDIVE_GROUP_ID HIDIVE_PREPRINTS_COLLECTION_ID
             = Some (Inr preprints, r2)"
    and "getPubMedIds ncbi (doisOf (pubs @ preprints)) 100 = Some (Inr idMap, r3)"
  shows "main stn zotero ncbi
           = Some (exportPapers (sortAndAttach idMap (pubs @ preprints)) emptyWorld)"
  using assms by (simp add: main_def)

lemma exportPapers_first_file:
  "files (snd (exportPapers xs emptyWorld)) \<noteq> []
   \<and> hd (files (snd (exportPapers xs emptyWorld))) = (''papers.json'', JsonDocument xs)"
  by (simp add: exportPapers_def Let_def writeTextFile_def logAll_def emptyWorld_def
        split: prod.splits sum.splits)

lemma overlap_filter:
  "(filter (\<lambda>k. k \<in> set ys) xs \<noteq> []) = (set xs \<inter> set ys \<noteq> {})"
  by (auto simp: filter_empty_conv)

lemma main_writes_papers:
  assumes "fetchZoteroCollection stn zotero HIDIVE_GROUP_ID HIDIVE_PUBLICATIONS_COLLECTION_ID
             = Some (Inr pubs, r1)"
    and "fetchZoteroCollection stn zotero HIDIVE_GROUP_ID HIDIVE_PREPRINTS_COLLECTION_ID
             = Some (Inr preprints, r2)"
    and "getPubMedIds ncbi (doisOf (pubs @ preprints)) 100 = Some (Inr idMap, r3)"
  shows "\<exists>r w. main stn zotero ncbi = Some (r, w) \<and> files w \<noteq> []
           \<and> hd (files w) = (''papers.json'', JsonDocument (sortAndAttach idMap (pubs @ preprints)))"
  using main_exports [OF assms] exportPapers_first_file [of "sortAndAttach idMap (pubs @ preprints)"]
  by (cases "exportPapers (sortAndAttach idMap (pubs @ preprints)) emptyWorld") auto

text \<open>
  The revision that lists the item keys of the two collections states the invariant
  (\<^verbatim>\<open>// make sure we don't have overlap between the two collections\<close>) and asserts
  it: key sets that intersect end the run with the assertion error
  \<open>Overlap between collections\<close> before any file is written, and disjoint key sets let
  the run go on to fetch the items, resolve the identifiers and export.
\<close>

lemma keys_overlap_assertion:
  assumes "fetchHidiveZoteroItemKeys keysApi HIDIVE_PUBLICATIONS_COLLECTION_ID = Inr pubIds"
    and "fetchHidiveZoteroItemKeys keysApi HIDIVE_PREPRINTS_COLLECTION_ID = Inr preprintIds"
  shows "(set pubIds \<inter> set preprintIds \<noteq> {} \<longrightarrow>
            main_keys keysApi fetchZoteroItem ncbi
              = Some (Inl (AssertionError ''Overlap between collections''),
                      \<lparr>files = [], console = []\<rparr>))
       \<and> (set pubIds \<inter> set preprintIds = {} \<longrightarrow>
            main_keys keysApi fetchZoteroItem ncbi
              = collectAndExport_keys fetchZoteroItem ncbi (pubIds @ preprintIds))"
proof (intro conjI impI)
  assume "set pubIds \<inter> set preprintIds \<noteq> {}"
  with assms show "main_keys keysApi fetchZoteroItem ncbi
           = Some (Inl (AssertionError ''Overlap between collections''),
                   \<lparr>files = [], console = []\<rparr>)"
    by (simp add: main_keys_def overlap_filter emptyWorld_def)
next
  assume "set pubIds \<inter> set preprintIds = {}"
  with assms show "main_keys keysApi fetchZoteroItem ncbi
           = collectAndExport_keys fetchZoteroItem ncbi (pubIds @ preprintIds)"
    using overlap_filter [of preprintIds pubIds] by (simp add: main_keys_def)
qed

lemma keys_overlapping:
  "fetchHidiveZoteroItemKeys overlappingKeysApi HIDIVE_PUBLICATIONS_COLLECTION_ID
     = Inr [''K1'', ''K2'']"
  "fetchHidiveZoteroItemKeys overlappingKeysApi HIDIVE_PREPRINTS_COLLECTION_ID = Inr [''K2'']"
  by (simp_all add: fetchHidiveZoteroItemKeys_def overlappingKeysApi_def bindE_def trim_def
        isSpace_def setAdd_def setDelete_def collections_distinct Let_def)

lemma keys_disjoint:
  "fetchHidiveZoteroItemKeys disjointKeysApi HIDIVE_PUBLICATIONS_COLLECTION_ID = Inr [''K1'']"
  "fetchHidiveZoteroItemKeys disjointKeysApi HIDIVE_PREPRINTS_COLLECTION_ID = Inr [''K2'']"
  by (simp_all add: fetchHidiveZoteroItemKeys_def disjointKeysApi_def bindE_def trim_def
        isSpace_def setAdd_def setDelete_def collections_distinct Let_def)

lemma dois_overlapping:
  "doisOf [articleItem, preprintItem, preprintItem] = [''10.1/a'']"
  "doisOf [articleItem, preprintItem] = [''10.1/a'']"
  "doisOf [articleItem] = [''10.1/a'']"
  by (simp_all add: doisOf_def articleItem_def preprintItem_def)

lemma fetchItems_example:
  "fetchItems exampleFetchItem [''K1'', ''K2''] = ([articleItem, preprintItem], [])"
  by (simp add: exampleFetchItem_def)

lemma sort_disjoint:
  "toSorted compareByDate [articleItem, preprintItem] = [articleItem, preprintItem]"
  by (simp add: toSorted_def sortCompare_def compare_tie)

lemma collectAndExport_example:
  "map_option (\<lambda>(r, w). (r, map fst (files w)))
     (collectAndExport_keys exampleFetchItem exampleNcbi [''K1'', ''K2''])
   = Some (Inr (), [''pubs.json'', ''pubs.csv'', ''preprints.csv''])"
proof -
  have ty: "itemType articleItem = ''journalArticle''" "itemType preprintItem = ''preprint''"
    by (simp_all add: articleItem_def preprintItem_def)
  show ?thesis
    unfolding collectAndExport_keys_def fetchItems_example
    by (simp add: dois_overlapping pubmed_example sortAndAttach_def sort_disjoint
          attachPmid_def getProperty_def ty toCsv_keys_def Let_def writeTextFile_def logAll_def emptyWorld_def)
qed

lemma keys_overlap_assertion_example:
  "main_keys overlappingKeysApi exampleFetchItem exampleNcbi
     = Some (Inl (AssertionError ''Overlap between collections''), \<lparr>files = [], console = []\<rparr>)
   \<and> map_option (\<lambda>(r, w). (r, map fst (files w)))
         (main_keys disjointKeysApi exampleFetchItem exampleNcbi)
       = Some (Inr (), [''pubs.json'', ''pubs.csv'', ''preprints.csv''])"
  using keys_overlap_assertion [OF keys_overlapping, of exampleFetchItem exampleNcbi]
    keys_overlap_assertion [OF keys_disjoint, of exampleFetchItem exampleNcbi]
  by (simp add: collectAndExport_example)

text \<open>
  C1. The latest revision of \<^verbatim>\<open>main\<close> fetches the two collections and never compares
  their keys (see \<open>main_writes_papers\<close>). The two collections served here share the item
  \<open>K2\<close>: the run ends normally with all three files written and the shared item
  exported twice, where the revision that lists the keys stops on the same two key sets
  with the assertion error before any file is written.
\<close>

theorem main_overlap_unchecked:
  "fetchZoteroCollection (\<lambda>s. NaN) overlappingZotero HIDIVE_GROUP_ID
       HIDIVE_PUBLICATIONS_COLLECTION_ID = Some (Inr [articleItem, preprintItem], [0])
   \<and> fetchZoteroCollection (\<lambda>s. NaN) overlappingZotero HIDIVE_GROUP_ID
       HIDIVE_PREPRINTS_COLLECTION_ID = Some (Inr [preprintItem], [0])
   \<and> map key [articleItem, preprintItem] = [''K1'', ''K2''] \<and> map key [preprintItem] = [''K2'']
   \<and> map_option (\<lambda>(r, w). (r, map fst (files w), map_of (files w) ''papers.json''))
         (main (\<lambda>s. NaN) overlappingZotero exampleNcbi)
       = Some (Inr (), [''papers.json'', ''pubs.csv'', ''preprints.csv''],
               Some (JsonDocument [\<lparr>pmid = Some (StringValue ''123''), item = articleItem\<rparr>,
                                   \<lparr>pmid = None, item = preprintItem\<rparr>,
                                   \<lparr>pmid = None, item = preprintItem\<rparr>]))
   \<and> fetchHidiveZoteroItemKeys overlappingKeysApi HIDIVE_PUBLICATIONS_COLLECTION_ID
       = Inr [''K1'', ''K2'']
   \<and> fetchHidiveZoteroItemKeys overlappingKeysApi HIDIVE_PREPRINTS_COLLECTION_ID = Inr [''K2'']
   \<and> main_keys overlappingKeysApi exampleFetchItem exampleNcbi
       = Some (Inl (AssertionError ''Overlap between collections''), \<lparr>files = [], console = []\<rparr>)"
proof -
  let ?xs = "sortAndAttach [''10.1/a'' \<mapsto> ''123''] ([articleItem, preprintItem] @ [preprintItem])"
  have xs: "?xs = [\<lparr>pmid = Some (StringValue ''123''), item = articleItem\<rparr>,
                   \<lparr>pmid = None, item = preprintItem\<rparr>, \<lparr>pmid = None, item = preprintItem\<rparr>]"
    by (simp add: sortAndAttach_def sort_overlapping attachPmid_def getProperty_def
          objectPrototypeNames_def)
       (simp add: articleItem_def preprintItem_def)
  have ty: "itemType articleItem = ''journalArticle''" "itemType preprintItem = ''preprint''"
    by (simp_all add: articleItem_def preprintItem_def)
  have ks: "key articleItem = ''K1''" "key preprintItem = ''K2''"
    by (simp_all add: articleItem_def preprintItem_def)
  have a: "\<exists>t. toCsv (filter (\<lambda>p. itemType (item p) \<noteq> ''preprint'') ?xs) = (Inr t, [])
             \<and> length (rows t) = 1"
    unfolding xs by (simp add: ty toCsv_def formatCitation_articleItem)
  have b: "\<exists>t. toCsv (filter (\<lambda>p. itemType (item p) = ''preprint'') ?xs) = (Inr t, [])
             \<and> length (rows t) = 2"
    unfolding xs by (simp add: ty toCsv_def formatCitation_preprintItem)
  from a b obtain t t' where
    "exportPapers ?xs emptyWorld
       = (Inr (), \<lparr>files = [(''papers.json'', JsonDocument ?xs), (''pubs.csv'', CsvDocument t),
                              (''preprints.csv'', CsvDocument t')],
                    console = [] @ []\<rparr>)"
    using exportPapers_files by blast
  moreover have "main (\<lambda>s. NaN) overlappingZotero exampleNcbi = Some (exportPapers ?xs emptyWorld)"
    by (rule main_exports [OF fetch_overlapping]) (simp add: dois_overlapping pubmed_example)
  ultimately have "map_option (\<lambda>(r, w). (r, map fst (files w), map_of (files w) ''papers.json''))
         (main (\<lambda>s. NaN) overlappingZotero exampleNcbi)
       = Some (Inr (), [''papers.json'', ''pubs.csv'', ''preprints.csv''], Some (JsonDocument ?xs))"
    by simp
  moreover have "main_keys overlappingKeysApi exampleFetchItem exampleNcbi
       = Some (Inl (AssertionError ''Overlap between collections''), \<lparr>files = [], console = []\<rparr>)"
    using keys_overlap_assertion [OF keys_overlapping, of exampleFetchItem exampleNcbi]
    by simp
  ultimately show ?thesis
    unfolding xs by (simp add: fetch_overlapping keys_overlapping ks)
qed


end
